theory Spec2Isabelle
  imports Main "HOL-Library.Word" "HOL-Library.Sublist"
begin

unbundle bit_operations_syntax

section \<open>Python values used by the program\<close>

text \<open>
  Text is a list of characters. A character of this model is a code point below 256
  (U+0000 .. U+00FF), and the character classes below are the ones Python 3 gives on
  that range: \<open>str.isspace\<close>, \<open>str.lower\<close>, \<open>str.upper\<close>, \<open>str.isupper\<close> and the
  regular-expression class \<open>\d\<close>.
\<close>

abbreviation NL :: char where "NL \<equiv> CHR 0x0A"
abbreviation TAB :: char where "TAB \<equiv> CHR 0x09"
abbreviation FF :: char where "FF \<equiv> CHR 0x0C"
abbreviation SP :: char where "SP \<equiv> CHR 0x20"

text \<open>
  The exceptions the program raises itself, and those its libraries raise into it. All of
  them are instances of Python's \<open>Exception\<close>, which is what the \<open>except\<close> clauses of the
  program catch.
\<close>

datatype exn =
    ImportError string
  | ValueError string
  | NotImplementedError string
  | UnicodeDecodeError string
  | UnicodeEncodeError string
  | ZeroDivisionError string
  | OSError string
  | IndexError string
  | AttributeError string
  | LibraryError string

fun exn_message :: "exn \<Rightarrow> string" where
  "exn_message (ImportError m) = m"
| "exn_message (ValueError m) = m"
| "exn_message (NotImplementedError m) = m"
| "exn_message (UnicodeDecodeError m) = m"
| "exn_message (UnicodeEncodeError m) = m"
| "exn_message (ZeroDivisionError m) = m"
| "exn_message (OSError m) = m"
| "exn_message (IndexError m) = m"
| "exn_message (AttributeError m) = m"
| "exn_message (LibraryError m) = m"

definition py_isspace :: "char \<Rightarrow> bool" where
  "py_isspace c = (of_char c \<in> set [9, 10, 11, 12, 13, 28, 29, 30, 31, 32, 133, 160 :: nat])"

definition py_strip :: "string \<Rightarrow> string" where
  "py_strip s = rev (dropWhile py_isspace (rev (dropWhile py_isspace s)))"

text \<open>
  \<open>re.sub\<close> for a pattern that matches a run of at least \<open>n\<close> characters of one class
  (\<open>[class]{n,}\<close>, greedy): scanning from the left, a run of \<open>n\<close> or more is replaced
  whole by \<open>repl\<close>, any other character is copied.
\<close>

function sub_runs :: "(char \<Rightarrow> bool) \<Rightarrow> nat \<Rightarrow> string \<Rightarrow> string \<Rightarrow> string" where
  "sub_runs P n repl [] = []"
| "sub_runs P n repl (c # cs) =
     (if P c \<and> n \<le> Suc (length (takeWhile P cs))
      then repl @ sub_runs P n repl (dropWhile P cs)
      else c # sub_runs P n repl cs)"
  by pat_completeness auto
termination
  by (relation "measure (\<lambda>(P, n, repl, s). length s)")
     (auto simp: length_dropWhile_le less_Suc_eq_le)

definition lower_char :: "char \<Rightarrow> char" where
  "lower_char c =
     (let n = (of_char c :: nat)
      in if (65 \<le> n \<and> n \<le> 90) \<or> (192 \<le> n \<and> n \<le> 222 \<and> n \<noteq> 215)
         then char_of (n + 32) else c)"

definition py_lower :: "string \<Rightarrow> string" where
  "py_lower s = map lower_char s"

text \<open>
  \<open>str.upper\<close> leaves the range: U+00B5 goes to U+039C, U+00DF to \<open>SS\<close> and U+00FF to
  U+0178, so the result is a list of code points.
\<close>

definition upper_char :: "char \<Rightarrow> nat list" where
  "upper_char c =
     (let n = (of_char c :: nat)
      in if 97 \<le> n \<and> n \<le> 122 then [n - 32]
         else if n = 181 then [924]
         else if n = 223 then [83, 83]
         else if 224 \<le> n \<and> n \<le> 254 \<and> n \<noteq> 247 then [n - 32]
         else if n = 255 then [376]
         else [n])"

definition py_upper :: "string \<Rightarrow> nat list" where
  "py_upper s = concat (map upper_char s)"

definition char_islower :: "char \<Rightarrow> bool" where
  "char_islower c =
     (let n = (of_char c :: nat)
      in (97 \<le> n \<and> n \<le> 122) \<or> n = 170 \<or> n = 181 \<or> n = 186 \<or>
         (223 \<le> n \<and> n \<le> 255 \<and> n \<noteq> 247))"

definition char_isupper :: "char \<Rightarrow> bool" where
  "char_isupper c =
     (let n = (of_char c :: nat)
      in (65 \<le> n \<and> n \<le> 90) \<or> (192 \<le> n \<and> n \<le> 222 \<and> n \<noteq> 215))"

definition py_isupper :: "string \<Rightarrow> bool" where
  "py_isupper s = (list_all (\<lambda>c. \<not> char_islower c) s \<and> list_ex char_isupper s)"

definition re_digit :: "char \<Rightarrow> bool" where
  "re_digit c = (48 \<le> (of_char c :: nat) \<and> (of_char c :: nat) \<le> 57)"

fun py_join :: "string \<Rightarrow> string list \<Rightarrow> string" where
  "py_join sep [] = []"
| "py_join sep [x] = x"
| "py_join sep (x # y # zs) = x @ sep @ py_join sep (y # zs)"

fun py_split_nl :: "string \<Rightarrow> string list" where
  "py_split_nl [] = [[]]"
| "py_split_nl (c # cs) =
     (if c = NL then [] # py_split_nl cs
      else (case py_split_nl cs of [] \<Rightarrow> [[c]] | l # ls \<Rightarrow> (c # l) # ls))"

text \<open>\<open>s[k:]\<close>: a negative start counts from the end and is clipped at the start.\<close>

definition py_slice_from :: "int \<Rightarrow> string \<Rightarrow> string" where
  "py_slice_from k s = (if k < 0 then drop (nat (int (length s) + k)) s else drop (nat k) s)"

text \<open>Truthiness of an optional string: \<open>None\<close> and the empty string are false.\<close>

fun truthy :: "string option \<Rightarrow> bool" where
  "truthy None = False"
| "truthy (Some s) = (s \<noteq> [])"

definition digit_char :: "nat \<Rightarrow> char" where
  "digit_char n = ''0123456789'' ! n"

fun str_of_nat :: "nat \<Rightarrow> string" where
  "str_of_nat n =
     (if n < 10 then [digit_char n] else str_of_nat (n div 10) @ [digit_char (n mod 10)])"

declare str_of_nat.simps [simp del]

section \<open>hashlib.md5 (RFC 1321) on the UTF-8 encoding of a string\<close>

type_synonym byte = "8 word"

definition utf8_encode :: "string \<Rightarrow> byte list" where
  "utf8_encode s =
     concat (map (\<lambda>c. let n = (of_char c :: nat)
                       in if n < 128 then [of_nat n]
                          else [of_nat (192 + n div 64), of_nat (128 + n mod 64)]) s)"

definition md5_K :: "32 word list" where
  "md5_K =
    [0xd76aa478, 0xe8c7b756, 0x242070db, 0xc1bdceee, 0xf57c0faf, 0x4787c62a, 0xa8304613, 0xfd469501,
     0x698098d8, 0x8b44f7af, 0xffff5bb1, 0x895cd7be, 0x6b901122, 0xfd987193, 0xa679438e, 0x49b40821,
     0xf61e2562, 0xc040b340, 0x265e5a51, 0xe9b6c7aa, 0xd62f105d, 0x02441453, 0xd8a1e681, 0xe7d3fbc8,
     0x21e1cde6, 0xc33707d6, 0xf4d50d87, 0x455a14ed, 0xa9e3e905, 0xfcefa3f8, 0x676f02d9, 0x8d2a4c8a,
     0xfffa3942, 0x8771f681, 0x6d9d6122, 0xfde5380c, 0xa4beea44, 0x4bdecfa9, 0xf6bb4b60, 0xbebfbc70,
     0x289b7ec6, 0xeaa127fa, 0xd4ef3085, 0x04881d05, 0xd9d4d039, 0xe6db99e5, 0x1fa27cf8, 0xc4ac5665,
     0xf4292244, 0x432aff97, 0xab9423a7, 0xfc93a039, 0x655b59c3, 0x8f0ccc92, 0xffeff47d, 0x85845dd1,
     0x6fa87e4f, 0xfe2ce6e0, 0xa3014314, 0x4e0811a1, 0xf7537e82, 0xbd3af235, 0x2ad7d2bb, 0xeb86d391]"

definition md5_s :: "nat list" where
  "md5_s =
    [7, 12, 17, 22, 7, 12, 17, 22, 7, 12, 17, 22, 7, 12, 17, 22,
     5, 9, 14, 20, 5, 9, 14, 20, 5, 9, 14, 20, 5, 9, 14, 20,
     4, 11, 16, 23, 4, 11, 16, 23, 4, 11, 16, 23, 4, 11, 16, 23,
     6, 10, 15, 21, 6, 10, 15, 21, 6, 10, 15, 21, 6, 10, 15, 21]"

definition rotl32 :: "nat \<Rightarrow> 32 word \<Rightarrow> 32 word" where
  "rotl32 n w = (push_bit n w) OR (drop_bit (32 - n) w)"

definition md5_F :: "nat \<Rightarrow> 32 word \<Rightarrow> 32 word \<Rightarrow> 32 word \<Rightarrow> 32 word" where
  "md5_F i b c d =
     (if i < 16 then (b AND c) OR (NOT b AND d)
      else if i < 32 then (d AND b) OR (NOT d AND c)
      else if i < 48 then b XOR c XOR d
      else c XOR (b OR NOT d))"

definition md5_g :: "nat \<Rightarrow> nat" where
  "md5_g i =
     (if i < 16 then i
      else if i < 32 then (5 * i + 1) mod 16
      else if i < 48 then (3 * i + 5) mod 16
      else (7 * i) mod 16)"

type_synonym md5_state = "32 word \<times> 32 word \<times> 32 word \<times> 32 word"

definition md5_round :: "32 word list \<Rightarrow> md5_state \<Rightarrow> nat \<Rightarrow> md5_state" where
  "md5_round M st i =
     (case st of (a, b, c, d) \<Rightarrow>
        (d, b + rotl32 (md5_s ! i) (md5_F i b c d + a + md5_K ! i + M ! md5_g i), b, c))"

fun le_words :: "byte list \<Rightarrow> 32 word list" where
  "le_words (b0 # b1 # b2 # b3 # bs) =
     (ucast b0 OR push_bit 8 (ucast b1) OR push_bit 16 (ucast b2) OR push_bit 24 (ucast b3))
       # le_words bs"
| "le_words _ = []"

definition md5_block :: "md5_state \<Rightarrow> byte list \<Rightarrow> md5_state" where
  "md5_block st blk =
     (case st of (a0, b0, c0, d0) \<Rightarrow>
        (case foldl (md5_round (le_words blk)) st [0..<64] of (a, b, c, d) \<Rightarrow>
           (a0 + a, b0 + b, c0 + c, d0 + d)))"

fun md5_blocks :: "nat \<Rightarrow> md5_state \<Rightarrow> byte list \<Rightarrow> md5_state" where
  "md5_blocks 0 st bs = st"
| "md5_blocks (Suc n) st bs = md5_blocks n (md5_block st (take 64 bs)) (drop 64 bs)"

definition le_bytes32 :: "32 word \<Rightarrow> byte list" where
  "le_bytes32 w = [ucast w, ucast (drop_bit 8 w), ucast (drop_bit 16 w), ucast (drop_bit 24 w)]"

definition le_bytes64 :: "64 word \<Rightarrow> byte list" where
  "le_bytes64 w =
     [ucast w, ucast (drop_bit 8 w), ucast (drop_bit 16 w), ucast (drop_bit 24 w),
      ucast (drop_bit 32 w), ucast (drop_bit 40 w), ucast (drop_bit 48 w), ucast (drop_bit 56 w)]"

definition md5_pad :: "byte list \<Rightarrow> byte list" where
  "md5_pad m =
     m @ [0x80] @ replicate ((119 - length m mod 64) mod 64) 0 @ le_bytes64 (8 * of_nat (length m))"

definition md5_digest :: "byte list \<Rightarrow> byte list" where
  "md5_digest m =
     (let p = md5_pad m
      in case md5_blocks (length p div 64) (0x67452301, 0xefcdab89, 0x98badcfe, 0x10325476) p of
           (a, b, c, d) \<Rightarrow> le_bytes32 a @ le_bytes32 b @ le_bytes32 c @ le_bytes32 d)"

definition hex_digit :: "nat \<Rightarrow> char" where
  "hex_digit n = ''0123456789abcdef'' ! n"

definition hexdigest :: "byte list \<Rightarrow> string" where
  "hexdigest bs = concat (map (\<lambda>b. [hex_digit (unat b div 16), hex_digit (unat b mod 16)]) bs)"

text \<open>\<open>hashlib.md5(c.encode("utf-8")).hexdigest()\<close>\<close>

definition md5_hexdigest :: "string \<Rightarrow> string" where
  "md5_hexdigest c = hexdigest (md5_digest (utf8_encode c))"

section \<open>io_utils/pre_processor.py: the world outside the program\<close>

text \<open>
  What the program prints. The texts carry symbols and formatted numbers; a message is kept
  as the event it reports.
\<close>

datatype message =
    PdfFileNotFound string
  | PdfReadError string exn
  | SavedChunks nat
  | DataDirNotFound string
  | FoundFiles nat
  | Processing string
  | IngestionComplete string nat
  | StructuredGenerationError exn
  | ClientConnected string string

text \<open>One call of \<open>collection.add\<close>: the four keyword arguments.\<close>

record 'v add_call =
  ids :: "string list"
  embeddings :: 'v
  documents :: "string list"
  metadatas :: "(string \<times> string) list list"

text \<open>
  The state the ingestion run changes: the printed messages, the batches handed to
  \<open>embedding_model.encode\<close> and the calls of \<open>collection.add\<close>, each in order.
\<close>

record 'v world =
  printed :: "message list"
  encoded :: "string list list"
  added :: "'v add_call list"

text \<open>
  The libraries and the file system, as functions of what the program passes to them:
  \<^item> \<open>path_exists\<close>: \<open>os.path.exists\<close>;
  \<^item> \<open>read_text_utf8\<close>: \<open>open(path, "r", encoding="utf-8")\<close> and \<open>f.read()\<close>, which raise
    on a file that cannot be opened or is not UTF-8;
  \<^item> \<open>soup_get_text\<close>: BeautifulSoup's parse of the markup, the removal of the six kinds
    of tags and \<open>get_text(separator="\n", strip=True)\<close>;
  \<^item> \<open>fitz_page_texts\<close>: \<open>fitz.open(path)\<close> and \<open>page.get_text("text")\<close> of every page;
  \<^item> \<open>get_encoding\<close>: \<open>tiktoken.get_encoding\<close>, giving the encoder's \<open>encode\<close>;
  \<^item> \<open>sent_tokenize\<close>: NLTK's sentence splitter;
  \<^item> \<open>get_or_create_collection\<close>, \<open>load_embedding_model\<close>: the two helpers of
    \<open>io_utils.load_db\<close>, the second giving the model's \<open>encode\<close>;
  \<^item> \<open>rglob_files\<close>: the regular files under a directory, each as \<open>str(file_path)\<close> and
    \<open>str(file_path.relative_to(data_path))\<close>;
  \<^item> \<open>collection_count\<close>: \<open>collection.count()\<close> after the given calls of \<open>add\<close>.
\<close>

record 'v env =
  path_exists :: "string \<Rightarrow> bool"
  read_text_utf8 :: "string \<Rightarrow> exn + string"
  soup_get_text :: "string \<Rightarrow> exn + string"
  fitz_page_texts :: "string \<Rightarrow> exn + string list"
  get_encoding :: "string \<Rightarrow> exn + (string \<Rightarrow> nat list)"
  sent_tokenize :: "string \<Rightarrow> string list"
  get_or_create_collection :: "string \<Rightarrow> string \<Rightarrow> exn + unit"
  load_embedding_model :: "string \<Rightarrow> exn + (string list \<Rightarrow> 'v)"
  rglob_files :: "string \<Rightarrow> (string \<times> string) list"
  collection_count :: "'v add_call list \<Rightarrow> nat"

definition print :: "message \<Rightarrow> 'v world \<Rightarrow> 'v world" where
  "print m w = w\<lparr>printed := printed w @ [m]\<rparr>"

section \<open>io_utils/pre_processor.py: extraction\<close>

definition extract_text_from_html :: "'v env \<Rightarrow> string \<Rightarrow> exn + string" where
  "extract_text_from_html env path =
     (if \<not> path_exists env path then Inr ''''
      else case read_text_utf8 env path of
             Inl e \<Rightarrow> Inl e
           | Inr html \<Rightarrow> soup_get_text env html)"

definition extract_text_from_pdf :: "'v env \<Rightarrow> string \<Rightarrow> 'v world \<Rightarrow> string \<times> 'v world" where
  "extract_text_from_pdf env path w =
     (if \<not> path_exists env path then ('''', print (PdfFileNotFound path) w)
      else case fitz_page_texts env path of
             Inr text_content \<Rightarrow> (py_strip (py_join [NL] text_content), w)
           | Inl e \<Rightarrow> ('''', print (PdfReadError path e) w))"

section \<open>io_utils/pre_processor.py: text cleaning and the noise filter\<close>

definition clean_text :: "string \<Rightarrow> string" where
  "clean_text text =
     (let text1 = sub_runs (\<lambda>c. c = NL) 2 [NL] text;
          text2 = sub_runs (\<lambda>c. c = SP \<or> c = TAB) 1 [SP] text1;
          text3 = filter (\<lambda>c. c \<noteq> FF) text2
      in py_strip text3)"

text \<open>\<open>re.match(r'^\d+[\.\)]', s)\<close>\<close>

definition match_list_marker :: "string \<Rightarrow> bool" where
  "match_list_marker s =
     (takeWhile re_digit s \<noteq> [] \<and>
      (case dropWhile re_digit s of [] \<Rightarrow> False | c # _ \<Rightarrow> c = CHR ''.'' \<or> c = CHR '')''))"

fun filter_lines :: "string list \<Rightarrow> string list" where
  "filter_lines [] = []"
| "filter_lines (ln # lns) =
     (let s = py_strip ln
      in if s = [] then filter_lines lns
         else if match_list_marker s then filter_lines lns
         else if length s < 30 \<and> py_isupper s then filter_lines lns
         else if sublist (map of_char ''REFERENCES'') (py_upper s) \<or>
                 sublist (map of_char ''TABLE'') (py_upper s) then filter_lines lns
         else ln # filter_lines lns)"

definition filter_noise :: "string \<Rightarrow> string" where
  "filter_noise text = py_join [NL] (filter_lines (py_split_nl text))"

section \<open>io_utils/pre_processor.py: chunking\<close>

fun dedup_loop :: "string list \<Rightarrow> string set \<Rightarrow> string list \<Rightarrow> string list" where
  "dedup_loop [] seen unique = unique"
| "dedup_loop (c # cs) seen unique =
     (let h = md5_hexdigest c
      in if h \<notin> seen then dedup_loop cs (insert h seen) (unique @ [c])
         else dedup_loop cs seen unique)"

definition deduplicate_chunks :: "string list \<Rightarrow> string list" where
  "deduplicate_chunks chunks = dedup_loop chunks {} []"

record chunk_state =
  chunks :: "string list"
  current :: "string list"
  current_tokens :: int

text \<open>\<open>full_chunk[-overlap:] if len(full_chunk) > overlap else full_chunk\<close>\<close>

definition overlap_text :: "int \<Rightarrow> string \<Rightarrow> string" where
  "overlap_text overlap full_chunk =
     (if int (length full_chunk) > overlap then py_slice_from (- overlap) full_chunk
      else full_chunk)"

text \<open>The \<open>for sent in sentences\<close> loop of \<open>chunk_text\<close>.\<close>

fun chunk_loop ::
  "(string \<Rightarrow> nat list) \<Rightarrow> int \<Rightarrow> int \<Rightarrow> string list \<Rightarrow> chunk_state \<Rightarrow> chunk_state" where
  "chunk_loop enc max_tokens overlap [] st = st"
| "chunk_loop enc max_tokens overlap (sent # sentences) st =
     (let sent_len = int (length (enc sent))
      in if sent_len > max_tokens then chunk_loop enc max_tokens overlap sentences st
         else
           let st1 =
                 (if current_tokens st + sent_len > max_tokens
                  then let full_chunk = py_join '' '' (current st);
                           overlap_txt = overlap_text overlap full_chunk
                       in \<lparr>chunks = chunks st @ [full_chunk],
                           current = [overlap_txt],
                           current_tokens = int (length (enc overlap_txt))\<rparr>
                  else st)
           in chunk_loop enc max_tokens overlap sentences
                \<lparr>chunks = chunks st1,
                 current = current st1 @ [sent],
                 current_tokens = current_tokens st1 + sent_len\<rparr>)"

definition chunk_text :: "'v env \<Rightarrow> string \<Rightarrow> string \<Rightarrow> int \<Rightarrow> int \<Rightarrow> exn + string list" where
  "chunk_text env text tokenizer_name max_tokens overlap =
     (case get_encoding env tokenizer_name of
        Inl e \<Rightarrow> Inl e
      | Inr enc \<Rightarrow>
          let sentences = sent_tokenize env text;
              st = chunk_loop enc max_tokens overlap sentences
                     \<lparr>chunks = [], current = [], current_tokens = 0\<rparr>;
              chunks' = (if current st \<noteq> [] then chunks st @ [py_join '' '' (current st)]
                         else chunks st)
          in Inr (deduplicate_chunks chunks'))"

section \<open>io_utils/pre_processor.py: database interaction\<close>

definition embed_and_upsert ::
  "string list \<Rightarrow> (string list \<Rightarrow> 'v) \<Rightarrow> string \<Rightarrow> string \<Rightarrow> 'v world \<Rightarrow> 'v world" where
  "embed_and_upsert chunks_in encode model_name source_filename w =
     (if chunks_in = [] then w
      else
        let doc_prefix = (if sublist ''e5'' (py_lower model_name) then ''passage: '' else '''');
            texts_to_embed = map (\<lambda>c. doc_prefix @ c) chunks_in;
            w1 = w\<lparr>encoded := encoded w @ [texts_to_embed]\<rparr>;
            embeddings' = encode texts_to_embed;
            ids' = map (\<lambda>i. source_filename @ ''_'' @ str_of_nat i) [0..<length chunks_in];
            metadatas' = replicate (length chunks_in) [(''dataset'', source_filename)];
            w2 = w1\<lparr>added := added w1 @
                   [\<lparr>ids = ids', embeddings = embeddings', documents = chunks_in,
                     metadatas = metadatas'\<rparr>]\<rparr>
        in print (SavedChunks (length chunks_in)) w2)"

section \<open>io_utils/pre_processor.py: the ingestion run\<close>

text \<open>
  \<open>Path.suffix\<close>: the part of the last path component from its last dot, when that dot is
  neither the first nor the last character of the component.
\<close>

definition path_name :: "string \<Rightarrow> string" where
  "path_name p = rev (takeWhile (\<lambda>c. c \<noteq> CHR ''/'') (rev p))"

definition path_suffix :: "string \<Rightarrow> string" where
  "path_suffix p =
     (let name = path_name p;
          after = rev (takeWhile (\<lambda>c. c \<noteq> CHR ''.'') (rev name))
      in if CHR ''.'' \<in> set name \<and> after \<noteq> [] \<and> length after + 1 < length name
         then CHR ''.'' # after else '''')"

text \<open>
  The body of the loop over \<open>all_files\<close>, for one file. An exception leaves the loop and
  the run: nothing in \<open>run_ingestion\<close> catches it.
\<close>

definition ingest_file ::
  "'v env \<Rightarrow> (string list \<Rightarrow> 'v) \<Rightarrow> string \<Rightarrow> string \<Rightarrow> int \<Rightarrow> int \<Rightarrow>
   string \<times> string \<Rightarrow> 'v world \<Rightarrow> exn + 'v world" where
  "ingest_file env encode embedding_model_name tokenizer_model chunk_size chunk_overlap file w =
     (case file of (file_path, relative_path) \<Rightarrow>
        let readable_source_name = map (\<lambda>c. if c = CHR 0x5C then CHR ''/'' else c) relative_path;
            w1 = print (Processing readable_source_name) w;
            ext = py_lower (path_suffix file_path);
            extracted =
              (if ext = ''.html'' then
                 (case extract_text_from_html env file_path of
                    Inl e \<Rightarrow> Inl e
                  | Inr raw_text \<Rightarrow> Inr (Some (raw_text, w1)))
               else if ext = ''.pdf'' then Inr (Some (extract_text_from_pdf env file_path w1))
               else Inr None)
        in case extracted of
             Inl e \<Rightarrow> Inl e
           | Inr None \<Rightarrow> Inr w1
           | Inr (Some (raw_text, w2)) \<Rightarrow>
               let clean_txt = clean_text raw_text;
                   filtered_txt = filter_noise clean_txt
               in case chunk_text env filtered_txt tokenizer_model chunk_size chunk_overlap of
                    Inl e \<Rightarrow> Inl e
                  | Inr chunks_out \<Rightarrow>
                      Inr (embed_and_upsert chunks_out encode embedding_model_name
                             readable_source_name w2))"

fun ingest_files ::
  "'v env \<Rightarrow> (string list \<Rightarrow> 'v) \<Rightarrow> string \<Rightarrow> string \<Rightarrow> int \<Rightarrow> int \<Rightarrow>
   (string \<times> string) list \<Rightarrow> 'v world \<Rightarrow> exn + 'v world" where
  "ingest_files env encode embedding_model_name tokenizer_model chunk_size chunk_overlap [] w = Inr w"
| "ingest_files env encode embedding_model_name tokenizer_model chunk_size chunk_overlap (file # files) w =
     (case ingest_file env encode embedding_model_name tokenizer_model chunk_size chunk_overlap file w of
        Inl e \<Rightarrow> Inl e
      | Inr w' \<Rightarrow>
          ingest_files env encode embedding_model_name tokenizer_model chunk_size chunk_overlap files w')"

definition run_ingestion ::
  "'v env \<Rightarrow> string \<Rightarrow> string \<Rightarrow> string \<Rightarrow> string \<Rightarrow> string \<Rightarrow> int \<Rightarrow> int \<Rightarrow>
   'v world \<Rightarrow> exn + 'v world" where
  "run_ingestion env data_dir db_path collection_name embedding_model_name tokenizer_model
     chunk_size chunk_overlap w =
     (case get_or_create_collection env db_path collection_name of
        Inl e \<Rightarrow> Inl e
      | Inr collection \<Rightarrow>
     (case load_embedding_model env embedding_model_name of
        Inl e \<Rightarrow> Inl e
      | Inr encode \<Rightarrow>
          if \<not> path_exists env data_dir then Inr (print (DataDirNotFound data_dir) w)
          else
            let all_files = rglob_files env data_dir;
                w1 = print (FoundFiles (length all_files)) w
            in case ingest_files env encode embedding_model_name tokenizer_model chunk_size
                      chunk_overlap all_files w1 of
                 Inl e \<Rightarrow> Inl e
               | Inr w2 \<Rightarrow>
                   Inr (print (IngestionComplete collection_name (collection_count env (added w2)))
                          w2)))"

section \<open>generation_utils/schema.py\<close>

text \<open>
  The Python values a model instance holds: \<open>None\<close>, a string, a list, or an instance of a
  model class with the fields that are set on it.
\<close>

datatype pyval =
    PyNone
  | PyStr string
  | PyList "pyval list"
  | PyInstance string "(string \<times> pyval) list"

text \<open>
  A field of a pydantic model class, as the class body declares it: its name, its
  annotation and its default. \<open>Field(None, ...)\<close> declares the default \<open>None\<close>,
  \<open>Field(default_factory=f, ...)\<close> a factory that is called for the default (and may
  raise); a field with neither is required.
\<close>

datatype annotation = Optional_str | List_of string

datatype field_default =
    Required
  | Default pyval
  | DefaultFactory "unit \<Rightarrow> exn + pyval"

record field_decl =
  field_name :: string
  field_annotation :: annotation
  field_default :: field_default

text \<open>\<open>class DatasetSummary(BaseModel)\<close> and \<open>class Response(BaseModel)\<close>.\<close>

definition DatasetSummary_fields :: "field_decl list" where
  "DatasetSummary_fields =
     [\<lparr>field_name = ''name'', field_annotation = Optional_str, field_default = Default PyNone\<rparr>,
      \<lparr>field_name = ''summary'', field_annotation = Optional_str, field_default = Default PyNone\<rparr>,
      \<lparr>field_name = ''quote'', field_annotation = Optional_str, field_default = Default PyNone\<rparr>]"

definition Response_fields :: "field_decl list" where
  "Response_fields =
     [\<lparr>field_name = ''answer'', field_annotation = Optional_str, field_default = Default PyNone\<rparr>,
      \<lparr>field_name = ''name_top'', field_annotation = Optional_str,
        field_default = Default PyNone\<rparr>,
      \<lparr>field_name = ''supporting_datasets'', field_annotation = List_of ''DatasetSummary'',
        field_default = DefaultFactory (\<lambda>u. Inr (PyList []))\<rparr>]"

text \<open>
  pydantic's \<open>model_construct()\<close> with no arguments: an instance built without validation.
  A required field is left unset, every other field is set to its default, a default
  factory being called for it; an exception of a factory leaves \<open>model_construct\<close>.
\<close>

fun construct_fields :: "field_decl list \<Rightarrow> exn + (string \<times> pyval) list" where
  "construct_fields [] = Inr []"
| "construct_fields (f # fs) =
     (case field_default f of
        Required \<Rightarrow> construct_fields fs
      | Default v \<Rightarrow>
          (case construct_fields fs of
             Inl e \<Rightarrow> Inl e
           | Inr vs \<Rightarrow> Inr ((field_name f, v) # vs))
      | DefaultFactory factory \<Rightarrow>
          (case factory () of
             Inl e \<Rightarrow> Inl e
           | Inr v \<Rightarrow>
               (case construct_fields fs of
                  Inl e \<Rightarrow> Inl e
                | Inr vs \<Rightarrow> Inr ((field_name f, v) # vs))))"

definition pydantic_model_construct :: "string \<Rightarrow> field_decl list \<Rightarrow> exn + pyval" where
  "pydantic_model_construct class_name decls =
     (case construct_fields decls of
        Inl e \<Rightarrow> Inl e
      | Inr vs \<Rightarrow> Inr (PyInstance class_name vs))"

text \<open>
  What the program uses of a pydantic model class. Instances live in a type \<open>'obj\<close> of
  Python values (\<open>None\<close> can be one of them), parsed JSON in a type \<open>'j\<close>. The two
  validators are pydantic's and so is \<open>model_construct()\<close>; each of the three is a call
  that returns or raises.
\<close>

record ('obj, 'j) schema_model =
  model_validate_json :: "string option \<Rightarrow> exn + 'obj"
  model_validate :: "'j \<Rightarrow> exn + 'obj"
  model_construct :: "exn + 'obj"
  model_json_schema :: 'j

text \<open>A pydantic model class with the given name and fields.\<close>

definition pydantic_model ::
  "string \<Rightarrow> field_decl list \<Rightarrow> (string option \<Rightarrow> exn + pyval) \<Rightarrow> ('j \<Rightarrow> exn + pyval) \<Rightarrow> 'j \<Rightarrow>
   (pyval, 'j) schema_model" where
  "pydantic_model class_name decls validate_json validate json_schema =
     \<lparr>model_validate_json = validate_json,
      model_validate = validate,
      model_construct = pydantic_model_construct class_name decls,
      model_json_schema = json_schema\<rparr>"

text \<open>The class \<open>Response\<close>, with pydantic's validators and JSON schema for it.\<close>

definition Response_model ::
  "(string option \<Rightarrow> exn + pyval) \<Rightarrow> ('j \<Rightarrow> exn + pyval) \<Rightarrow> 'j \<Rightarrow> (pyval, 'j) schema_model" where
  "Response_model validate_json validate json_schema =
     pydantic_model ''Response'' Response_fields validate_json validate json_schema"

section \<open>generation_utils/llm_client.py\<close>

text \<open>A chat message: its role and its content.\<close>

type_synonym chat_message = "string \<times> string"

text \<open>
  The handle \<open>self.client\<close>, by the calls the program makes on it. A call gives what the
  program reads of the answer, or the exception the SDK raises (a failed request, or an
  attribute the handle of another SDK does not have):
  \<^item> \<open>models_generate_content model contents schema\<close>: \<open>client.models.generate_content\<close>,
    with the JSON \<open>config\<close> for the given schema if there is one; gives \<open>response.text\<close>;
  \<^item> \<open>chat_completions_create model messages json_schema\<close>:
    \<open>client.chat.completions.create\<close>, with the \<open>response_format\<close> for the given JSON
    schema if there is one; gives \<open>message.content\<close> of every choice;
  \<^item> \<open>beta_chat_completions_parse model messages schema\<close>:
    \<open>client.beta.chat.completions.parse\<close>; gives \<open>message.parsed\<close> of every choice;
  \<^item> \<open>messages_create model max_tokens messages\<close>: \<open>client.messages.create\<close>; gives
    \<open>text\<close> of every content block.
\<close>

record ('obj, 'j) sdk_client =
  models_generate_content ::
    "string \<Rightarrow> string \<Rightarrow> ('obj, 'j) schema_model option \<Rightarrow> exn + string option"
  chat_completions_create ::
    "string \<Rightarrow> chat_message list \<Rightarrow> 'j option \<Rightarrow> exn + string option list"
  beta_chat_completions_parse ::
    "string \<Rightarrow> chat_message list \<Rightarrow> ('obj, 'j) schema_model \<Rightarrow> exn + 'obj list"
  messages_create :: "string \<Rightarrow> int \<Rightarrow> chat_message list \<Rightarrow> exn + string list"

text \<open>\<open>st.secrets\<close>: the table \<open>gkeys\<close>, if there is one, and the top-level keys.\<close>

record secrets =
  gkeys :: "(string \<Rightarrow> string option) option"
  top_level :: "string \<Rightarrow> string option"

text \<open>
  The process the client is built in: which of the four SDKs were importable, the
  environment after \<open>load_dotenv()\<close>, the secrets store (reading it raises when there is
  none), the constructors of the four SDKs, \<open>json.loads\<close>, and \<open>stdout_print\<close>: what
  \<open>print\<close> of a message does in this module. The text printed in the \<open>except\<close> clause of
  \<open>generate_structured\<close> starts with a warning sign and holds \<open>str(e)\<close>, the one printed by
  \<open>__init__\<close> starts with a plug sign; \<open>print\<close> raises when standard output cannot encode
  the text (\<open>UnicodeEncodeError\<close>), when it cannot be written to, or when \<open>str(e)\<close> raises.
\<close>

record ('obj, 'j) llm_env =
  HAS_GEMINI :: bool
  HAS_OPENAI :: bool
  HAS_ANTHROPIC :: bool
  HAS_GROQ :: bool
  getenv :: "string \<Rightarrow> string option"
  st_secrets :: "exn + secrets"
  genai_Client :: "string option \<Rightarrow> exn + ('obj, 'j) sdk_client"
  OpenAI :: "string option \<Rightarrow> exn + ('obj, 'j) sdk_client"
  Anthropic :: "string option \<Rightarrow> exn + ('obj, 'j) sdk_client"
  Groq :: "string option \<Rightarrow> exn + ('obj, 'j) sdk_client"
  json_loads :: "string option \<Rightarrow> exn + 'j"
  Response_class :: "('obj, 'j) schema_model"
  stdout_print :: "message \<Rightarrow> exn + unit"

record ('obj, 'j) LLMClient =
  self_provider :: string
  self_model_name :: string
  self_client :: "('obj, 'j) sdk_client"

text \<open>
  \<open>os.getenv(env_name) or st.secrets.get("gkeys", {}).get(secret_path) or
  st.secrets.get(env_name)\<close>: \<open>or\<close> gives its first true operand, else its last one.
\<close>

definition get_key :: "('obj, 'j) llm_env \<Rightarrow> string \<Rightarrow> string \<Rightarrow> exn + string option" where
  "get_key env env_name secret_path =
     (if truthy (getenv env env_name) then Inr (getenv env env_name)
      else case st_secrets env of
             Inl e \<Rightarrow> Inl e
           | Inr sec \<Rightarrow>
               let nested = (case gkeys sec of None \<Rightarrow> None | Some t \<Rightarrow> t secret_path)
               in if truthy nested then Inr nested else Inr (top_level sec env_name))"

definition init_client :: "('obj, 'j) llm_env \<Rightarrow> string \<Rightarrow> exn + ('obj, 'j) sdk_client" where
  "init_client env provider =
     (if provider = ''gemini'' then
        (if \<not> HAS_GEMINI env then Inl (ImportError ''Run `pip install google-genai`'')
         else case get_key env ''GEMINI_API_KEY'' ''gemini'' of
                Inl e \<Rightarrow> Inl e
              | Inr api_key \<Rightarrow> genai_Client env api_key)
      else if provider = ''openai'' then
        (if \<not> HAS_OPENAI env then Inl (ImportError ''Run `pip install openai`'')
         else case get_key env ''OPENAI_API_KEY'' ''openai'' of
                Inl e \<Rightarrow> Inl e
              | Inr api_key \<Rightarrow> OpenAI env api_key)
      else if provider = ''anthropic'' then
        (if \<not> HAS_ANTHROPIC env then Inl (ImportError ''Run `pip install anthropic`'')
         else case get_key env ''ANTHROPIC_API_KEY'' ''anthropic'' of
                Inl e \<Rightarrow> Inl e
              | Inr api_key \<Rightarrow> Anthropic env api_key)
      else if provider = ''groq'' then
        (if \<not> HAS_GROQ env then Inl (ImportError ''Run `pip install groq`'')
         else case get_key env ''GROQ_API_KEY'' ''groq'' of
                Inl e \<Rightarrow> Inl e
              | Inr api_key \<Rightarrow> Groq env api_key)
      else Inl (ValueError (''Unknown provider: '' @ provider)))"

text \<open>
  \<open>LLMClient.__init__\<close>: the new client and what was printed, or the exception. The
  \<open>print\<close> that ends it is not guarded either.
\<close>

definition LLMClient_init ::
  "('obj, 'j) llm_env \<Rightarrow> string \<Rightarrow> string \<Rightarrow> exn + (('obj, 'j) LLMClient \<times> message list)" where
  "LLMClient_init env provider model_name' =
     (let p = py_lower provider
      in case init_client env p of
           Inl e \<Rightarrow> Inl e
         | Inr c \<Rightarrow>
             (case stdout_print env (ClientConnected p model_name') of
                Inl e \<Rightarrow> Inl e
              | Inr u \<Rightarrow>
                  Inr (\<lparr>self_provider = p, self_model_name = model_name', self_client = c\<rparr>,
                       [ClientConnected p model_name'])))"

text \<open>\<open>xs[0]\<close>\<close>

definition first_item :: "'a list \<Rightarrow> exn + 'a" where
  "first_item xs = (case xs of [] \<Rightarrow> Inl (IndexError ''list index out of range'') | x # _ \<Rightarrow> Inr x)"

text \<open>\<open>try: body except Exception as e: handler\<close>\<close>

definition try_except :: "exn + 'a \<Rightarrow> (exn \<Rightarrow> exn + 'a) \<Rightarrow> exn + 'a" where
  "try_except body handler = (case body of Inl e \<Rightarrow> handler e | Inr v \<Rightarrow> Inr v)"

definition chat_messages :: "string \<Rightarrow> string option \<Rightarrow> chat_message list" where
  "chat_messages prompt system_instruction =
     (let messages = [(''user'', prompt)]
      in case system_instruction of
           None \<Rightarrow> messages
         | Some s \<Rightarrow> if s \<noteq> [] then (''system'', s) # messages else messages)"

text \<open>
  \<open>generate_text\<close>: the text, or \<open>None\<close> where the answer read from the SDK is \<open>None\<close> (and
  where no branch returns).
\<close>

definition generate_text ::
  "('obj, 'j) LLMClient \<Rightarrow> string \<Rightarrow> string option \<Rightarrow> exn + string option" where
  "generate_text self prompt system_instruction =
     try_except
       (if self_provider self = ''gemini'' then
          models_generate_content (self_client self) (self_model_name self) prompt None
        else if self_provider self = ''openai'' then
          (case chat_completions_create (self_client self) (self_model_name self)
                  (chat_messages prompt system_instruction) None of
             Inl e \<Rightarrow> Inl e
           | Inr choices \<Rightarrow> first_item choices)
        else if self_provider self = ''anthropic'' then
          (case messages_create (self_client self) (self_model_name self) 1024
                  [(''user'', prompt)] of
             Inl e \<Rightarrow> Inl e
           | Inr content \<Rightarrow> map_sum id Some (first_item content))
        else if self_provider self = ''groq'' then
          (case chat_completions_create (self_client self) (self_model_name self)
                  (chat_messages prompt system_instruction) None of
             Inl e \<Rightarrow> Inl e
           | Inr choices \<Rightarrow> first_item choices)
        else Inr None)
       (\<lambda>e. Inr (Some (''Error: '' @ exn_message e)))"

text \<open>The body of the \<open>try\<close> statement of \<open>generate_structured\<close>.\<close>

definition structured_body ::
  "('obj, 'j) llm_env \<Rightarrow> ('obj, 'j) LLMClient \<Rightarrow> string \<Rightarrow> ('obj, 'j) schema_model \<Rightarrow>
   exn + 'obj" where
  "structured_body env self prompt schema =
     (if self_provider self = ''gemini'' then
        (case models_generate_content (self_client self) (self_model_name self) prompt
                (Some schema) of
           Inl e \<Rightarrow> Inl e
         | Inr response_text \<Rightarrow> model_validate_json schema response_text)
      else if self_provider self = ''openai'' then
        (case beta_chat_completions_parse (self_client self) (self_model_name self)
                [(''user'', prompt)] schema of
           Inl e \<Rightarrow> Inl e
         | Inr choices \<Rightarrow> first_item choices)
      else if self_provider self = ''groq'' then
        (case chat_completions_create (self_client self) (self_model_name self)
                [(''system'', ''You are a helpful assistant that outputs JSON.''),
                 (''user'', prompt)]
                (Some (model_json_schema (Response_class env))) of
           Inl e \<Rightarrow> Inl e
         | Inr choices \<Rightarrow>
             (case first_item choices of
                Inl e \<Rightarrow> Inl e
              | Inr content \<Rightarrow>
                  (case json_loads env content of
                     Inl e \<Rightarrow> Inl e
                   | Inr j \<Rightarrow> model_validate (Response_class env) j)))
      else Inl (NotImplementedError
                  ''Structured output only supported for Gemini, Groq, and OpenAI.''))"

text \<open>
  \<open>generate_structured\<close>: the value returned (or the exception that leaves the method) and
  what was printed. The \<open>except\<close> clause prints the exception and returns
  \<open>schema_model.model_construct()\<close>; nothing catches what either of the two raises.
\<close>

definition generate_structured ::
  "('obj, 'j) llm_env \<Rightarrow> ('obj, 'j) LLMClient \<Rightarrow> string \<Rightarrow> ('obj, 'j) schema_model \<Rightarrow>
   (exn + 'obj) \<times> message list" where
  "generate_structured env self prompt schema =
     (case structured_body env self prompt schema of
        Inr v \<Rightarrow> (Inr v, [])
      | Inl e \<Rightarrow>
          (case stdout_print env (StructuredGenerationError e) of
             Inl e' \<Rightarrow> (Inl e', [])
           | Inr u \<Rightarrow>
               (case model_construct schema of
                  Inl e' \<Rightarrow> (Inl e', [StructuredGenerationError e])
                | Inr v \<Rightarrow> (Inr v, [StructuredGenerationError e]))))"

section \<open>generation_utils/generator.py\<close>

record ('obj, 'j) StudentGenerator =
  llm :: "('obj, 'j) LLMClient"

definition StudentGenerator_init ::
  "('obj, 'j) llm_env \<Rightarrow> string \<Rightarrow> string \<Rightarrow>
   exn + (('obj, 'j) StudentGenerator \<times> message list)" where
  "StudentGenerator_init env provider model_name' =
     (case LLMClient_init env provider model_name' of
        Inl e \<Rightarrow> Inl e
      | Inr (c, out) \<Rightarrow> Inr (\<lparr>llm = c\<rparr>, out))"

text \<open>The value of \<open>generate\<close>: a string or a model instance.\<close>

datatype 'obj generated = Text string | Instance 'obj

definition generate ::
  "('obj, 'j) llm_env \<Rightarrow> ('obj, 'j) StudentGenerator \<Rightarrow> string \<Rightarrow> string \<Rightarrow>
   ('obj, 'j) schema_model option \<Rightarrow> (exn + 'obj generated) \<times> message list" where
  "generate env self query context schema =
     (let system_instr =
            ''You are a helpful assistant. Answer based strictly on the context provided.'';
          prompt = ''Context:'' @ [NL] @ context @ [NL, NL] @ ''User question: '' @ query @ [NL]
      in case schema of
           Some schema_model \<Rightarrow>
             (case generate_structured env (llm self) prompt schema_model of
                (r, out) \<Rightarrow> (map_sum id Instance r, out))
         | None \<Rightarrow>
             (case generate_text (llm self) prompt (Some system_instr) of
                Inl e \<Rightarrow> (Inl e, [])
              | Inr response \<Rightarrow>
                  (case response of
                     None \<Rightarrow> (Inr (Text ''Error: The LLM returned no response.''), [])
                   | Some r \<Rightarrow> (Inr (Text r), []))))"

section \<open>Auxiliary notions for the proofs\<close>

text \<open>A text with no two newlines in a row, and a text with no tab and no two spaces in a row.\<close>

definition nl_ok :: "string \<Rightarrow> bool" where
  "nl_ok s = successively (\<lambda>a b. \<not> (a = NL \<and> b = NL)) s"

definition sp_ok :: "string \<Rightarrow> bool" where
  "sp_ok s = (TAB \<notin> set s \<and> successively (\<lambda>a b. \<not> (a = SP \<and> b = SP)) s)"

text \<open>
  The specification's reading of deduplication, written from its words (not from the
  code): the distinct elements of a list, each once, in the order in which they are first
  seen.
\<close>

fun first_seen :: "'a list \<Rightarrow> 'a list" where
  "first_seen [] = []"
| "first_seen (x # xs) = x # filter (\<lambda>y. y \<noteq> x) (first_seen xs)"

text \<open>Two distinct texts of 72 letters and digits with the same MD5 digest.\<close>

abbreviation collision_text_1 :: string where
  "collision_text_1 \<equiv>
     ''TEXTCOLLBYfGiJUETHQ4hAcKSMd5zYpgqf1YRDhkmxHkhPWptrkoyz28wnI9V0aHeAuaKnak''"

abbreviation collision_text_2 :: string where
  "collision_text_2 \<equiv>
     ''TEXTCOLLBYfGiJUETHQ4hEcKSMd5zYpgqf1YRDhkmxHkhPWptrkoyz28wnI9V0aHeAuaKnak''"

text \<open>
  The chunking loop once more, keeping apart what the code joins: a piece is the overlap
  seed a chunk starts with, if it has one, and the sentences appended to it. The list
  \<open>current\<close> of the code is the seed followed by the sentences, the emitted chunk their
  join. Lemma \<open>chunk_loop_pieces\<close> below shows that \<open>pieces_loop\<close> computes the same chunks
  as \<open>chunk_loop\<close>.
\<close>

type_synonym piece = "string option \<times> string list"

definition piece_parts :: "piece \<Rightarrow> string list" where
  "piece_parts g = (case fst g of None \<Rightarrow> snd g | Some sd \<Rightarrow> sd # snd g)"

definition render_piece :: "piece \<Rightarrow> string" where
  "render_piece g = py_join '' '' (piece_parts g)"

record piece_state =
  finished :: "piece list"
  seed :: "string option"
  appended :: "string list"
  tokens :: int

fun pieces_loop ::
  "(string \<Rightarrow> nat list) \<Rightarrow> int \<Rightarrow> int \<Rightarrow> string list \<Rightarrow> piece_state \<Rightarrow> piece_state" where
  "pieces_loop enc max_tokens overlap [] st = st"
| "pieces_loop enc max_tokens overlap (sent # sentences) st =
     (let sent_len = int (length (enc sent))
      in if sent_len > max_tokens then pieces_loop enc max_tokens overlap sentences st
         else
           let st1 =
                 (if tokens st + sent_len > max_tokens
                  then let overlap_txt = overlap_text overlap (render_piece (seed st, appended st))
                       in \<lparr>finished = finished st @ [(seed st, appended st)],
                           seed = Some overlap_txt,
                           appended = [],
                           tokens = int (length (enc overlap_txt))\<rparr>
                  else st)
           in pieces_loop enc max_tokens overlap sentences
                \<lparr>finished = finished st1,
                 seed = seed st1,
                 appended = appended st1 @ [sent],
                 tokens = tokens st1 + sent_len\<rparr>)"

definition chunk_pieces :: "(string \<Rightarrow> nat list) \<Rightarrow> int \<Rightarrow> int \<Rightarrow> string list \<Rightarrow> piece list" where
  "chunk_pieces enc max_tokens overlap sentences =
     (let st = pieces_loop enc max_tokens overlap sentences
                 \<lparr>finished = [], seed = None, appended = [], tokens = 0\<rparr>
      in if piece_parts (seed st, appended st) \<noteq> []
         then finished st @ [(seed st, appended st)] else finished st)"

text \<open>The chunk state of the code that a piece state stands for.\<close>

definition chunk_state_of :: "piece_state \<Rightarrow> chunk_state" where
  "chunk_state_of ps =
     \<lparr>chunks = map render_piece (finished ps),
      current = piece_parts (seed ps, appended ps),
      current_tokens = tokens ps\<rparr>"

text \<open>
  The seeds of a list of pieces are carried over: the first piece has the seed \<open>sd\<close>, every
  later one the overlap text of the chunk before it.
\<close>

fun seeds_chain :: "int \<Rightarrow> string option \<Rightarrow> piece list \<Rightarrow> bool" where
  "seeds_chain overlap sd [] = True"
| "seeds_chain overlap sd (g # gs) =
     (fst g = sd \<and> seeds_chain overlap (Some (overlap_text overlap (render_piece g))) gs)"

text \<open>The number of tokens of the sentences of a list, each encoded on its own.\<close>

definition sentence_tokens :: "(string \<Rightarrow> nat list) \<Rightarrow> string list \<Rightarrow> int" where
  "sentence_tokens enc ss = (\<Sum>s\<leftarrow>ss. int (length (enc s)))"

text \<open>
  A small world to run the functions in: a tokenizer that gives one token for every
  character, and a sentence splitter that takes every non-empty line as a sentence.
\<close>

definition char_tokens :: "string \<Rightarrow> nat list" where
  "char_tokens s = map of_char s"

definition line_env :: "unit env" where
  "line_env =
     \<lparr>path_exists = (\<lambda>p. True),
      read_text_utf8 = (\<lambda>p. Inr ''''),
      soup_get_text = Inr,
      fitz_page_texts = (\<lambda>p. Inr []),
      get_encoding = (\<lambda>n. if n = ''cl100k_base'' then Inr char_tokens
                           else Inl (ValueError ''Unknown encoding'')),
      sent_tokenize = (\<lambda>t. filter (\<lambda>l. l \<noteq> []) (py_split_nl t)),
      get_or_create_collection = (\<lambda>p n. Inr ()),
      load_embedding_model = (\<lambda>n. Inr (\<lambda>texts. ())),
      rglob_files = (\<lambda>d. []),
      collection_count = (\<lambda>calls. length (concat (map ids calls)))\<rparr>"


text \<open>The prompt and the system instruction \<open>StudentGenerator.generate\<close> builds.\<close>

definition student_prompt :: "string \<Rightarrow> string \<Rightarrow> string" where
  "student_prompt query context =
     ''Context:'' @ [NL] @ context @ [NL, NL] @ ''User question: '' @ query @ [NL]"

abbreviation student_system_instr :: string where
  "student_system_instr \<equiv>
     ''You are a helpful assistant. Answer based strictly on the context provided.''"

text \<open>
  A small world for the LLM client: an SDK handle whose every call fails, one whose calls
  give the answer \<open>None\<close>, one that answers \<open>42\<close>, a process with all four SDKs installed,
  the keys in the environment and a standard output that takes every text, and the same
  process once its standard output is a stream that takes ASCII only.
\<close>

definition failing_client :: "(pyval, unit) sdk_client" where
  "failing_client =
     \<lparr>models_generate_content = (\<lambda>m c s. Inl (LibraryError ''connection refused'')),
      chat_completions_create = (\<lambda>m ms f. Inl (LibraryError ''connection refused'')),
      beta_chat_completions_parse = (\<lambda>m ms s. Inl (LibraryError ''connection refused'')),
      messages_create = (\<lambda>m n ms. Inl (LibraryError ''connection refused''))\<rparr>"

definition silent_client :: "(pyval, unit) sdk_client" where
  "silent_client =
     \<lparr>models_generate_content = (\<lambda>m c s. Inr None),
      chat_completions_create = (\<lambda>m ms f. Inr [None]),
      beta_chat_completions_parse = (\<lambda>m ms s. Inr [PyNone]),
      messages_create = (\<lambda>m n ms. Inr [])\<rparr>"

definition answering_client :: "(pyval, unit) sdk_client" where
  "answering_client =
     \<lparr>models_generate_content = (\<lambda>m c s. Inr (Some ''42'')),
      chat_completions_create = (\<lambda>m ms f. Inr [Some ''42'']),
      beta_chat_completions_parse = (\<lambda>m ms s. Inr [PyNone]),
      messages_create = (\<lambda>m n ms. Inr [''42''])\<rparr>"

definition demo_Response :: "(pyval, unit) schema_model" where
  "demo_Response =
     Response_model (\<lambda>s. Inl (LibraryError ''validation error''))
       (\<lambda>j. Inl (LibraryError ''validation error'')) ()"

definition demo_llm_env :: "(pyval, unit) llm_env" where
  "demo_llm_env =
     \<lparr>HAS_GEMINI = True, HAS_OPENAI = True, HAS_ANTHROPIC = True, HAS_GROQ = True,
      getenv = (\<lambda>n. Some ''key''),
      st_secrets = Inl (LibraryError ''no secrets file''),
      genai_Client = (\<lambda>k. Inr failing_client),
      OpenAI = (\<lambda>k. Inr failing_client),
      Anthropic = (\<lambda>k. Inr failing_client),
      Groq = (\<lambda>k. Inr failing_client),
      json_loads = (\<lambda>s. Inl (LibraryError ''not JSON'')),
      Response_class = demo_Response,
      stdout_print = (\<lambda>m. Inr ())\<rparr>"


text \<open>
  Two more model classes: \<open>Scored\<close>, with a field \<open>label: str = "n/a"\<close>, and \<open>Stamped\<close>,
  with a field whose default factory divides by zero.
\<close>

definition Scored_model :: "(pyval, unit) schema_model" where
  "Scored_model =
     pydantic_model ''Scored''
       [\<lparr>field_name = ''label'', field_annotation = Optional_str,
          field_default = Default (PyStr ''n/a'')\<rparr>]
       (\<lambda>s. Inl (LibraryError ''validation error''))
       (\<lambda>j. Inl (LibraryError ''validation error'')) ()"


text \<open>
  The specification's reading of an instance "with all fields absent or empty", written
  from its words: every field set on the instance is \<open>None\<close>, an empty string or an empty
  list.
\<close>

definition empty_value :: "pyval \<Rightarrow> bool" where
  "empty_value v = (v = PyNone \<or> v = PyStr [] \<or> v = PyList [])"

fun all_fields_empty :: "pyval \<Rightarrow> bool" where
  "all_fields_empty (PyInstance c vs) = list_all (\<lambda>nv. empty_value (snd nv)) vs"
| "all_fields_empty PyNone = False"
| "all_fields_empty (PyStr s) = False"
| "all_fields_empty (PyList vs) = False"


text \<open>
  A data directory with two files: \<open>a.html\<close>, whose bytes are not UTF-8, and \<open>b.pdf\<close>, a
  PDF of one page.
\<close>

definition broken_html_env :: "unit env" where
  "broken_html_env =
     line_env
       \<lparr>read_text_utf8 :=
          (\<lambda>p. if p = ''data/a.html''
                then Inl (UnicodeDecodeError ''invalid start byte'') else Inr ''''),
        fitz_page_texts := (\<lambda>p. Inr [''Sentence one. Sentence two.'']),
        rglob_files := (\<lambda>d. [(''data/a.html'', ''a.html''), (''data/b.pdf'', ''b.pdf'')])\<rparr>"

text \<open>The same directory with the files \<open>a.pdf\<close>, which cannot be read, and \<open>b.pdf\<close>.\<close>

definition broken_pdf_env :: "unit env" where
  "broken_pdf_env =
     line_env
       \<lparr>fitz_page_texts :=
          (\<lambda>p. if p = ''data/a.pdf''
                then Inl (LibraryError ''cannot open broken document'')
                else Inr [''Sentence one. Sentence two.'']),
        rglob_files := (\<lambda>d. [(''data/a.pdf'', ''a.pdf''), (''data/b.pdf'', ''b.pdf'')])\<rparr>"

section \<open>Text cleaning\<close>

lemma py_strip_idem: "py_strip (py_strip s) = py_strip s"
proof -
  define u where "u = dropWhile py_isspace s"
  define t where "t = rev (dropWhile py_isspace (rev u))"
  have tu: "\<exists>w. u = t @ w"
  proof -
    have "rev u = takeWhile py_isspace (rev u) @ dropWhile py_isspace (rev u)"
      by simp
    then have "u = rev (dropWhile py_isspace (rev u)) @ rev (takeWhile py_isspace (rev u))"
      by (metis rev_append rev_rev_ident)
    then show ?thesis unfolding t_def by blast
  qed
  have hd_u: "u \<noteq> [] \<Longrightarrow> \<not> py_isspace (hd u)"
    unfolding u_def by (rule hd_dropWhile)
  have "dropWhile py_isspace t = t"
  proof (cases t)
    case Nil
    then show ?thesis by simp
  next
    case (Cons a as)
    with tu have "u \<noteq> []" and "hd u = a" by auto
    with hd_u have "\<not> py_isspace a" by simp
    with Cons show ?thesis by simp
  qed
  moreover have "dropWhile py_isspace (rev t) = rev t"
    unfolding t_def by simp
  ultimately have "py_strip t = t"
    by (simp add: py_strip_def)
  then show ?thesis
    by (simp add: py_strip_def t_def u_def)
qed

lemma successively_dropWhile: "successively Q s \<Longrightarrow> successively Q (dropWhile W s)"
  by (induction s) (auto simp: successively_Cons)

lemma successively_py_strip:
  assumes "successively Q s" and "\<And>a b. Q a b = Q b a"
  shows "successively Q (py_strip s)"
proof -
  have sym: "(\<lambda>x y. Q y x) = Q" using assms(2) by auto
  have "successively Q (dropWhile py_isspace s)"
    using assms(1) by (rule successively_dropWhile)
  then have "successively Q (rev (dropWhile py_isspace s))"
    unfolding successively_rev sym .
  then have "successively Q (dropWhile py_isspace (rev (dropWhile py_isspace s)))"
    by (rule successively_dropWhile)
  then show ?thesis
    unfolding py_strip_def successively_rev sym .
qed

lemma set_py_strip: "set (py_strip s) \<subseteq> set s"
  by (auto simp: py_strip_def dest!: set_dropWhileD)

lemma sub_runs_nl_fix: "nl_ok s \<Longrightarrow> sub_runs (\<lambda>c. c = NL) 2 [NL] s = s"
proof (induction s)
  case Nil
  then show ?case by simp
next
  case (Cons c cs)
  then have "nl_ok cs" by (auto simp: nl_ok_def successively_Cons)
  moreover have "c = NL \<Longrightarrow> takeWhile (\<lambda>c. c = NL) cs = []"
    using Cons.prems by (cases cs) (auto simp: nl_ok_def)
  ultimately show ?case using Cons.IH by auto
qed

lemma dropWhile_cases:
  obtains "dropWhile P cs = []" | d ds where "dropWhile P cs = d # ds" "\<not> P d"
  by (cases "dropWhile P cs") (auto simp: dropWhile_eq_Cons_conv)

lemma sub_runs_nl_ok: "nl_ok (sub_runs (\<lambda>c. c = NL) 2 [NL] s)"
proof (induction "\<lambda>c. c = NL" "2::nat" "[NL]" s rule: sub_runs.induct)
  case 1
  then show ?case by (simp add: nl_ok_def)
next
  case (2 c cs)
  let ?P = "\<lambda>c. c = NL"
  show ?case
  proof (cases "c = NL \<and> 2 \<le> Suc (length (takeWhile ?P cs))")
    case True
    then have eq: "sub_runs ?P 2 [NL] (c # cs) = NL # sub_runs ?P 2 [NL] (dropWhile ?P cs)"
      by simp
    have ih: "nl_ok (sub_runs ?P 2 [NL] (dropWhile ?P cs))" using 2(1) True by blast
    show ?thesis
    proof (cases rule: dropWhile_cases[of ?P cs])
      case 1
      show ?thesis unfolding eq 1 by (simp add: nl_ok_def)
    next
      case (2 d ds)
      show ?thesis using ih 2(2) unfolding eq 2(1) by (simp add: nl_ok_def)
    qed
  next
    case False
    then have eq: "sub_runs ?P 2 [NL] (c # cs) = c # sub_runs ?P 2 [NL] cs"
      by auto
    have ih: "nl_ok (sub_runs ?P 2 [NL] cs)" using 2(2) False by blast
    show ?thesis
    proof (cases cs)
      case Nil
      then show ?thesis unfolding eq by (simp add: nl_ok_def)
    next
      case (Cons d ds)
      show ?thesis
      proof (cases "d = NL")
        case True
        with False Cons have "c \<noteq> NL" by auto
        then show ?thesis using ih unfolding eq nl_ok_def
          by (cases "sub_runs ?P 2 [NL] cs") auto
      next
        case dn: False
        then have "sub_runs ?P 2 [NL] cs = d # sub_runs ?P 2 [NL] ds"
          using Cons by simp
        then show ?thesis using ih dn unfolding eq nl_ok_def by simp
      qed
    qed
  qed
qed


lemma nl_ok_Cons_other: "c \<noteq> NL \<Longrightarrow> nl_ok xs \<Longrightarrow> nl_ok (c # xs)"
  by (cases xs) (auto simp: nl_ok_def)

lemma nl_ok_tl: "nl_ok (c # cs) \<Longrightarrow> nl_ok cs"
  by (cases cs) (auto simp: nl_ok_def)

lemma nl_ok_dropWhile: "nl_ok cs \<Longrightarrow> nl_ok (dropWhile W cs)"
  unfolding nl_ok_def by (rule successively_dropWhile)

lemma sub_runs_one:
  "sub_runs P 1 r (c # cs) =
     (if P c then r @ sub_runs P 1 r (dropWhile P cs) else c # sub_runs P 1 r cs)"
  by simp

lemma sub_runs_sp_nl_ok:
  "nl_ok s \<Longrightarrow> nl_ok (sub_runs (\<lambda>c. c = SP \<or> c = TAB) 1 [SP] s)"
proof (induction "\<lambda>c. c = SP \<or> c = TAB" "1::nat" "[SP]" s rule: sub_runs.induct)
  case 1
  then show ?case by simp
next
  case (2 c cs)
  let ?Q = "\<lambda>c. c = SP \<or> c = TAB"
  show ?case
  proof (cases "?Q c")
    case True
    have "nl_ok (dropWhile ?Q cs)"
      using 2(3) by (intro nl_ok_dropWhile) (rule nl_ok_tl)
    then have "nl_ok (sub_runs ?Q 1 [SP] (dropWhile ?Q cs))"
      using 2(1) True by simp
    then have "nl_ok (SP # sub_runs ?Q 1 [SP] (dropWhile ?Q cs))"
      by (intro nl_ok_Cons_other) simp_all
    then show ?thesis using True unfolding sub_runs_one by simp
  next
    case False
    have ih: "nl_ok (sub_runs ?Q 1 [SP] cs)"
      using 2(2) False nl_ok_tl[OF 2(3)] by simp
    have eq: "sub_runs ?Q 1 [SP] (c # cs) = c # sub_runs ?Q 1 [SP] cs"
      using False unfolding sub_runs_one by simp
    show ?thesis
    proof (cases cs)
      case Nil
      then show ?thesis unfolding eq by (simp add: nl_ok_def)
    next
      case (Cons d ds)
      show ?thesis
      proof (cases "?Q d")
        case True
        then have "sub_runs ?Q 1 [SP] cs = SP # sub_runs ?Q 1 [SP] (dropWhile ?Q ds)"
          unfolding Cons sub_runs_one by simp
        then show ?thesis using ih unfolding eq nl_ok_def by simp
      next
        case dn: False
        then have "sub_runs ?Q 1 [SP] cs = d # sub_runs ?Q 1 [SP] ds"
          unfolding Cons sub_runs_one by simp
        moreover have "\<not> (c = NL \<and> d = NL)"
          using 2(3) unfolding Cons nl_ok_def by simp
        ultimately show ?thesis using ih unfolding eq nl_ok_def by simp
      qed
    qed
  qed
qed

lemma sp_ok_tl: "sp_ok (c # cs) \<Longrightarrow> sp_ok cs"
  by (cases cs) (auto simp: sp_ok_def)

lemma sp_ok_Cons_other: "c \<noteq> SP \<Longrightarrow> c \<noteq> TAB \<Longrightarrow> sp_ok xs \<Longrightarrow> sp_ok (c # xs)"
  by (cases xs) (auto simp: sp_ok_def)

lemma sub_runs_sp_ok: "sp_ok (sub_runs (\<lambda>c. c = SP \<or> c = TAB) 1 [SP] s)"
proof (induction "\<lambda>c. c = SP \<or> c = TAB" "1::nat" "[SP]" s rule: sub_runs.induct)
  case 1
  then show ?case by (simp add: sp_ok_def)
next
  case (2 c cs)
  let ?Q = "\<lambda>c. c = SP \<or> c = TAB"
  show ?case
  proof (cases "?Q c")
    case True
    have ih: "sp_ok (sub_runs ?Q 1 [SP] (dropWhile ?Q cs))"
      using 2(1) True by simp
    have eq: "sub_runs ?Q 1 [SP] (c # cs) = SP # sub_runs ?Q 1 [SP] (dropWhile ?Q cs)"
      using True unfolding sub_runs_one by simp
    show ?thesis
    proof (cases rule: dropWhile_cases[of ?Q cs])
      case 1
      show ?thesis unfolding eq 1 by (simp add: sp_ok_def)
    next
      case (2 d ds)
      have "sub_runs ?Q 1 [SP] (d # ds) = d # sub_runs ?Q 1 [SP] ds"
        using 2(2) unfolding sub_runs_one by simp
      then show ?thesis using ih 2(2) unfolding eq 2(1) sp_ok_def by simp
    qed
  next
    case False
    have ih: "sp_ok (sub_runs ?Q 1 [SP] cs)"
      using 2(2) False by simp
    have eq: "sub_runs ?Q 1 [SP] (c # cs) = c # sub_runs ?Q 1 [SP] cs"
      using False unfolding sub_runs_one by simp
    show ?thesis unfolding eq using False ih by (intro sp_ok_Cons_other) simp_all
  qed
qed

lemma sub_runs_sp_fix: "sp_ok s \<Longrightarrow> sub_runs (\<lambda>c. c = SP \<or> c = TAB) 1 [SP] s = s"
proof (induction s)
  case Nil
  then show ?case by simp
next
  case (Cons c cs)
  let ?Q = "\<lambda>c. c = SP \<or> c = TAB"
  have ih: "sub_runs ?Q 1 [SP] cs = cs"
    using Cons.IH sp_ok_tl[OF Cons.prems] by simp
  show ?case
  proof (cases "?Q c")
    case True
    then have c: "c = SP" using Cons.prems by (auto simp: sp_ok_def)
    have "dropWhile ?Q cs = cs"
      using Cons.prems unfolding c by (cases cs) (auto simp: sp_ok_def)
    then show ?thesis using ih c unfolding sub_runs_one by simp
  next
    case False
    then show ?thesis using ih unfolding sub_runs_one by simp
  qed
qed

lemma set_sub_runs: "set (sub_runs P n r s) \<subseteq> set s \<union> set r"
proof (induction P n r s rule: sub_runs.induct)
  case (1 P n repl)
  then show ?case by simp
next
  case (2 P n repl c cs)
  show ?case
  proof (cases "P c \<and> n \<le> Suc (length (takeWhile P cs))")
    case True
    then have "set (sub_runs P n repl (dropWhile P cs)) \<subseteq> set (dropWhile P cs) \<union> set repl"
      using 2(1) by blast
    moreover have "set (dropWhile P cs) \<subseteq> set cs"
      by (auto dest: set_dropWhileD)
    ultimately show ?thesis using True by auto
  next
    case False
    then have "set (sub_runs P n repl cs) \<subseteq> set cs \<union> set repl"
      using 2(2) by blast
    then show ?thesis using False by auto
  qed
qed

lemma nl_ok_py_strip: "nl_ok s \<Longrightarrow> nl_ok (py_strip s)"
  unfolding nl_ok_def by (rule successively_py_strip) auto

lemma sp_ok_py_strip: "sp_ok s \<Longrightarrow> sp_ok (py_strip s)"
  unfolding sp_ok_def using set_py_strip[of s]
  by (auto intro: successively_py_strip)

text \<open>
  Claim C2, as stated: \<open>clean_text\<close> applied twice gives what it gives applied once, for
  every text. It fails where a form feed stands between two newlines (or two spaces): the
  form feed is removed after the runs were collapsed, so the first pass leaves two newlines
  in a row and the second pass collapses them. For the five characters \<open>a\<close>, newline, form
  feed, newline, \<open>b\<close> the first pass gives \<open>a\<close>, newline, newline, \<open>b\<close> and the second
  \<open>a\<close>, newline, \<open>b\<close>.
\<close>

theorem clean_text_not_idempotent:
  "clean_text [CHR ''a'', NL, FF, NL, CHR ''b''] = [CHR ''a'', NL, NL, CHR ''b''] \<and>
   clean_text (clean_text [CHR ''a'', NL, FF, NL, CHR ''b'']) = [CHR ''a'', NL, CHR ''b''] \<and>
   clean_text (clean_text [CHR ''a'', NL, FF, NL, CHR ''b''])
     \<noteq> clean_text [CHR ''a'', NL, FF, NL, CHR ''b'']"
  by (simp add: clean_text_def py_strip_def py_isspace_def)

text \<open>
  Claim C2, amended: for every text with no form feed in it, \<open>clean_text\<close> applied twice
  gives what it gives applied once.
\<close>

theorem clean_text_idempotent_without_form_feed:
  assumes "FF \<notin> set s"
  shows "clean_text (clean_text s) = clean_text s"
proof -
  define a where "a = sub_runs (\<lambda>c. c = NL) 2 [NL] s"
  define b where "b = sub_runs (\<lambda>c. c = SP \<or> c = TAB) 1 [SP] a"
  define c where "c = py_strip b"
  have "FF \<notin> set a"
    using set_sub_runs[of "\<lambda>c. c = NL" 2 "[NL]" s] assms unfolding a_def by auto
  then have ffb: "FF \<notin> set b"
    using set_sub_runs[of "\<lambda>c. c = SP \<or> c = TAB" 1 "[SP]" a] unfolding b_def by auto
  then have fb: "filter (\<lambda>c. c \<noteq> FF) b = b"
    by (auto simp: filter_id_conv)
  have once: "clean_text s = c"
    unfolding clean_text_def Let_def c_def a_def[symmetric] b_def[symmetric] fb ..
  have "nl_ok a" unfolding a_def by (rule sub_runs_nl_ok)
  then have "nl_ok b" unfolding b_def by (rule sub_runs_sp_nl_ok)
  then have "nl_ok c" unfolding c_def by (rule nl_ok_py_strip)
  then have s1: "sub_runs (\<lambda>c. c = NL) 2 [NL] c = c" by (rule sub_runs_nl_fix)
  have "sp_ok b" unfolding b_def by (rule sub_runs_sp_ok)
  then have "sp_ok c" unfolding c_def by (rule sp_ok_py_strip)
  then have s2: "sub_runs (\<lambda>c. c = SP \<or> c = TAB) 1 [SP] c = c" by (rule sub_runs_sp_fix)
  have "FF \<notin> set c" using ffb set_py_strip[of b] unfolding c_def by auto
  then have s3: "filter (\<lambda>c. c \<noteq> FF) c = c" by (auto simp: filter_id_conv)
  have s4: "py_strip c = c" unfolding c_def by (rule py_strip_idem)
  have "clean_text c = c"
    unfolding clean_text_def Let_def s1 s2 s3 s4 ..
  then show ?thesis unfolding once .
qed

theorem clean_text_idempotent_witness:
  "FF \<notin> set [SP, TAB, CHR ''a'', NL, NL, NL, SP, SP, CHR ''b'', NL] \<and>
   clean_text [SP, TAB, CHR ''a'', NL, NL, NL, SP, SP, CHR ''b'', NL] = [CHR ''a'', NL, SP, CHR ''b''] \<and>
   clean_text (clean_text [SP, TAB, CHR ''a'', NL, NL, NL, SP, SP, CHR ''b'', NL])
     = clean_text [SP, TAB, CHR ''a'', NL, NL, NL, SP, SP, CHR ''b'', NL]"
  using clean_text_idempotent_without_form_feed
          [of "[SP, TAB, CHR ''a'', NL, NL, NL, SP, SP, CHR ''b'', NL]"]
  by (simp add: clean_text_def py_strip_def py_isspace_def)

section \<open>Deduplication of chunks\<close>

lemma set_dedup_loop: "set (dedup_loop cs seen unique) \<subseteq> set unique \<union> set cs"
proof (induction cs arbitrary: seen unique)
  case Nil
  then show ?case by simp
next
  case (Cons c cs)
  have "set (dedup_loop cs (insert (md5_hexdigest c) seen) (unique @ [c]))
          \<subseteq> set (unique @ [c]) \<union> set cs"
    by (rule Cons.IH)
  moreover have "set (dedup_loop cs seen unique) \<subseteq> set unique \<union> set cs"
    by (rule Cons.IH)
  ultimately show ?case by (auto simp: Let_def)
qed

lemma set_deduplicate_chunks: "set (deduplicate_chunks cs) \<subseteq> set cs"
  unfolding deduplicate_chunks_def using set_dedup_loop[of cs "{}" "[]"] by simp

lemma set_first_seen: "set (first_seen xs) = set xs"
  by (induction xs) auto

lemma distinct_first_seen: "distinct (first_seen xs)"
  by (induction xs) (auto simp: set_first_seen)

lemma filter_first_seen: "filter P (first_seen xs) = first_seen (filter P xs)"
proof (induction xs)
  case Nil
  then show ?case by simp
next
  case (Cons x xs)
  show ?case
  proof (cases "P x")
    case True
    have "filter P (filter (\<lambda>y. y \<noteq> x) (first_seen xs))
            = filter (\<lambda>y. y \<noteq> x) (filter P (first_seen xs))"
      by (simp add: conj_commute)
    then show ?thesis using True Cons.IH by simp
  next
    case False
    have "filter P (filter (\<lambda>y. y \<noteq> x) (first_seen xs)) = filter P (first_seen xs)"
      using False by (auto intro: filter_cong)
    then show ?thesis using False Cons.IH by simp
  qed
qed

lemma dedup_loop_first_seen:
  assumes "inj_on md5_hexdigest (set unique \<union> set cs)"
      and "seen = md5_hexdigest ` set unique"
  shows "dedup_loop cs seen unique = unique @ first_seen (filter (\<lambda>c. c \<notin> set unique) cs)"
  using assms
proof (induction cs arbitrary: seen unique)
  case Nil
  then show ?case by simp
next
  case (Cons c cs)
  have mem: "md5_hexdigest c \<in> seen \<longleftrightarrow> c \<in> set unique"
  proof
    assume "md5_hexdigest c \<in> seen"
    then obtain u where u: "u \<in> set unique" "md5_hexdigest u = md5_hexdigest c"
      using Cons.prems(2) by auto
    have "u = c"
      by (rule inj_onD[OF Cons.prems(1) u(2)]) (use u(1) in simp_all)
    with u show "c \<in> set unique" by simp
  next
    assume "c \<in> set unique"
    then show "md5_hexdigest c \<in> seen" using Cons.prems(2) by simp
  qed
  show ?case
  proof (cases "c \<in> set unique")
    case True
    have "inj_on md5_hexdigest (set unique \<union> set cs)"
      using Cons.prems(1) by (rule inj_on_subset) auto
    then have "dedup_loop cs seen unique
                 = unique @ first_seen (filter (\<lambda>c. c \<notin> set unique) cs)"
      using Cons.prems(2) by (rule Cons.IH)
    then show ?thesis using True mem by simp
  next
    case False
    have inj: "inj_on md5_hexdigest (set (unique @ [c]) \<union> set cs)"
      using Cons.prems(1) by (rule inj_on_subset) auto
    have seen': "insert (md5_hexdigest c) seen = md5_hexdigest ` set (unique @ [c])"
      using Cons.prems(2) by auto
    have "dedup_loop cs (insert (md5_hexdigest c) seen) (unique @ [c])
            = (unique @ [c]) @ first_seen (filter (\<lambda>x. x \<notin> set (unique @ [c])) cs)"
      using inj seen' by (rule Cons.IH)
    moreover have "filter (\<lambda>x. x \<notin> set (unique @ [c])) cs
                     = filter (\<lambda>y. y \<noteq> c) (filter (\<lambda>x. x \<notin> set unique) cs)"
      by (auto intro: filter_cong)
    ultimately show ?thesis using False mem
      by (simp add: filter_first_seen)
  qed
qed

text \<open>
  Claim C6, amended: for every list of chunk strings of which no two distinct ones have the
  same MD5 digest, the result is the list of the distinct input strings in first-seen
  order, each exactly once.
\<close>

theorem deduplicate_chunks_first_seen:
  assumes "inj_on md5_hexdigest (set chunks_in)"
  shows "deduplicate_chunks chunks_in = first_seen chunks_in \<and>
         distinct (deduplicate_chunks chunks_in) \<and>
         set (deduplicate_chunks chunks_in) = set chunks_in"
proof -
  have "deduplicate_chunks chunks_in = first_seen chunks_in"
    unfolding deduplicate_chunks_def
    using dedup_loop_first_seen[of "[]" chunks_in "{}"] assms by simp
  then show ?thesis
    by (simp add: distinct_first_seen set_first_seen)
qed

subsection \<open>Digests evaluated\<close>

lemma md5_collision_text_1:
  "md5_hexdigest collision_text_1 = ''faad49866e9498fc1719f5289e7a0269''"
  by code_simp

lemma md5_collision_text_2:
  "md5_hexdigest collision_text_2 = ''faad49866e9498fc1719f5289e7a0269''"
  by code_simp

lemma md5_A: "md5_hexdigest ''A'' = ''7fc56270e7a70fa81a5935b72eacbe29''"
  by code_simp

lemma md5_B: "md5_hexdigest ''B'' = ''9d5ed678fe57bcca610140957afab571''"
  by code_simp

text \<open>
  Claim C6, as stated: for every list of chunk strings the result holds each distinct input
  string exactly once. The function compares MD5 digests, not strings: of two distinct
  chunks with the same digest it keeps the first and drops the second.
\<close>

theorem deduplicate_chunks_drops_colliding_chunk:
  "collision_text_1 \<noteq> collision_text_2 \<and>
   deduplicate_chunks [collision_text_1, collision_text_2] = [collision_text_1] \<and>
   collision_text_2 \<notin> set (deduplicate_chunks [collision_text_1, collision_text_2])"
  by (simp add: deduplicate_chunks_def md5_collision_text_1 md5_collision_text_2)

theorem deduplicate_chunks_first_seen_witness:
  "inj_on md5_hexdigest (set [''A'', ''B'', ''A'']) \<and>
   deduplicate_chunks [''A'', ''B'', ''A''] = [''A'', ''B'']"
proof -
  have inj: "inj_on md5_hexdigest (set [''A'', ''B'', ''A''])"
    by (auto simp: inj_on_def md5_A md5_B)
  from deduplicate_chunks_first_seen[OF inj] show ?thesis
    using inj by simp
qed

section \<open>Chunking\<close>

lemma piece_parts_snoc: "piece_parts (sd, ss @ [s]) = piece_parts (sd, ss) @ [s]"
  by (simp add: piece_parts_def split: option.splits)

lemma chunk_loop_pieces:
  "chunk_loop enc max_tokens overlap sentences (chunk_state_of ps)
     = chunk_state_of (pieces_loop enc max_tokens overlap sentences ps)"
proof (induction sentences arbitrary: ps)
  case Nil
  then show ?case by simp
next
  case (Cons sent sentences)
  let ?n = "int (length (enc sent))"
  show ?case
  proof (cases "?n > max_tokens")
    case True
    then show ?thesis using Cons.IH[of ps] by simp
  next
    case fits: False
    show ?thesis
    proof (cases "tokens ps + ?n > max_tokens")
      case True
      let ?txt = "overlap_text overlap (render_piece (seed ps, appended ps))"
      let ?ps' = "\<lparr>finished = finished ps @ [(seed ps, appended ps)], seed = Some ?txt,
                   appended = [sent], tokens = int (length (enc ?txt)) + ?n\<rparr>"
      have "chunk_loop enc max_tokens overlap (sent # sentences) (chunk_state_of ps)
              = chunk_loop enc max_tokens overlap sentences (chunk_state_of ?ps')"
        using fits True
        by (simp add: chunk_state_of_def Let_def render_piece_def piece_parts_def)
      also have "\<dots> = chunk_state_of (pieces_loop enc max_tokens overlap sentences ?ps')"
        by (rule Cons.IH)
      also have "\<dots> = chunk_state_of (pieces_loop enc max_tokens overlap (sent # sentences) ps)"
        using fits True by (simp add: Let_def)
      finally show ?thesis .
    next
      case False
      let ?ps' = "\<lparr>finished = finished ps, seed = seed ps,
                   appended = appended ps @ [sent], tokens = tokens ps + ?n\<rparr>"
      have "chunk_loop enc max_tokens overlap (sent # sentences) (chunk_state_of ps)
              = chunk_loop enc max_tokens overlap sentences (chunk_state_of ?ps')"
        using fits False
        by (simp add: chunk_state_of_def Let_def piece_parts_snoc)
      also have "\<dots> = chunk_state_of (pieces_loop enc max_tokens overlap sentences ?ps')"
        by (rule Cons.IH)
      also have "\<dots> = chunk_state_of (pieces_loop enc max_tokens overlap (sent # sentences) ps)"
        using fits False by (simp add: Let_def)
      finally show ?thesis .
    qed
  qed
qed

lemma chunk_text_pieces:
  assumes "get_encoding env tokenizer_name = Inr enc"
  shows "chunk_text env text tokenizer_name max_tokens overlap
           = Inr (deduplicate_chunks
                   (map render_piece (chunk_pieces enc max_tokens overlap (sent_tokenize env text))))"
proof -
  let ?ps0 = "\<lparr>finished = [], seed = None, appended = [], tokens = 0\<rparr>"
  have init: "\<lparr>chunks = [], current = [], current_tokens = 0\<rparr> = chunk_state_of ?ps0"
    by (simp add: chunk_state_of_def piece_parts_def)
  show ?thesis
    unfolding chunk_text_def assms init chunk_loop_pieces chunk_pieces_def
    by (simp add: Let_def chunk_state_of_def render_piece_def)
qed


lemma sentence_tokens_simps [simp]:
  "sentence_tokens enc [] = 0"
  "sentence_tokens enc (ss @ [s]) = sentence_tokens enc ss + int (length (enc s))"
  "sentence_tokens enc (s # ss) = int (length (enc s)) + sentence_tokens enc ss"
  by (simp_all add: sentence_tokens_def)

lemma pieces_loop_bound:
  assumes "\<forall>g\<in>set (finished ps). sentence_tokens enc (snd g) \<le> max_tokens"
      and "sentence_tokens enc (appended ps) \<le> max_tokens"
      and "sentence_tokens enc (appended ps) \<le> tokens ps"
  shows "(\<forall>g\<in>set (finished (pieces_loop enc max_tokens overlap sentences ps)).
            sentence_tokens enc (snd g) \<le> max_tokens) \<and>
         sentence_tokens enc (appended (pieces_loop enc max_tokens overlap sentences ps))
            \<le> max_tokens"
  using assms
proof (induction sentences arbitrary: ps)
  case Nil
  then show ?case by simp
next
  case (Cons sent sentences)
  let ?n = "int (length (enc sent))"
  show ?case
  proof (cases "?n > max_tokens")
    case True
    then show ?thesis using Cons.IH[of ps] Cons.prems by simp
  next
    case fits: False
    show ?thesis
    proof (cases "tokens ps + ?n > max_tokens")
      case True
      let ?txt = "overlap_text overlap (render_piece (seed ps, appended ps))"
      let ?ps' = "\<lparr>finished = finished ps @ [(seed ps, appended ps)], seed = Some ?txt,
                   appended = [sent], tokens = int (length (enc ?txt)) + ?n\<rparr>"
      have step: "pieces_loop enc max_tokens overlap (sent # sentences) ps
                    = pieces_loop enc max_tokens overlap sentences ?ps'"
        using fits True by (simp add: Let_def)
      have "\<forall>g\<in>set (finished ?ps'). sentence_tokens enc (snd g) \<le> max_tokens"
        using Cons.prems(1,2) by simp
      moreover have "sentence_tokens enc (appended ?ps') \<le> max_tokens"
        using fits by simp
      moreover have "sentence_tokens enc (appended ?ps') \<le> tokens ?ps'"
        by simp
      ultimately show ?thesis unfolding step by (rule Cons.IH)
    next
      case False
      let ?ps' = "\<lparr>finished = finished ps, seed = seed ps,
                   appended = appended ps @ [sent], tokens = tokens ps + ?n\<rparr>"
      have step: "pieces_loop enc max_tokens overlap (sent # sentences) ps
                    = pieces_loop enc max_tokens overlap sentences ?ps'"
        using fits False by (simp add: Let_def)
      have "\<forall>g\<in>set (finished ?ps'). sentence_tokens enc (snd g) \<le> max_tokens"
        using Cons.prems(1) by simp
      moreover have "sentence_tokens enc (appended ?ps') \<le> max_tokens"
        using False Cons.prems(3) by simp
      moreover have "sentence_tokens enc (appended ?ps') \<le> tokens ?ps'"
        using Cons.prems(3) by simp
      ultimately show ?thesis unfolding step by (rule Cons.IH)
    qed
  qed
qed

lemma chunk_pieces_bound:
  assumes "0 \<le> max_tokens"
  shows "\<forall>g\<in>set (chunk_pieces enc max_tokens overlap sentences).
           sentence_tokens enc (snd g) \<le> max_tokens"
proof -
  let ?ps0 = "\<lparr>finished = [], seed = None, appended = [], tokens = 0\<rparr>"
  have "(\<forall>g\<in>set (finished (pieces_loop enc max_tokens overlap sentences ?ps0)).
            sentence_tokens enc (snd g) \<le> max_tokens) \<and>
         sentence_tokens enc (appended (pieces_loop enc max_tokens overlap sentences ?ps0))
            \<le> max_tokens"
    by (rule pieces_loop_bound) (use assms in simp_all)
  then show ?thesis
    by (auto simp: chunk_pieces_def Let_def)
qed

lemma pieces_loop_fits:
  assumes "\<forall>g\<in>set (finished ps). \<forall>s\<in>set (snd g). int (length (enc s)) \<le> max_tokens"
      and "\<forall>s\<in>set (appended ps). int (length (enc s)) \<le> max_tokens"
  shows "(\<forall>g\<in>set (finished (pieces_loop enc max_tokens overlap sentences ps)).
            \<forall>s\<in>set (snd g). int (length (enc s)) \<le> max_tokens) \<and>
         (\<forall>s\<in>set (appended (pieces_loop enc max_tokens overlap sentences ps)).
            int (length (enc s)) \<le> max_tokens)"
  using assms
proof (induction sentences arbitrary: ps)
  case Nil
  then show ?case by simp
next
  case (Cons sent sentences)
  let ?n = "int (length (enc sent))"
  show ?case
  proof (cases "?n > max_tokens")
    case True
    then show ?thesis using Cons.IH[of ps] Cons.prems by simp
  next
    case fits: False
    show ?thesis
    proof (cases "tokens ps + ?n > max_tokens")
      case True
      let ?txt = "overlap_text overlap (render_piece (seed ps, appended ps))"
      let ?ps' = "\<lparr>finished = finished ps @ [(seed ps, appended ps)], seed = Some ?txt,
                   appended = [sent], tokens = int (length (enc ?txt)) + ?n\<rparr>"
      have step: "pieces_loop enc max_tokens overlap (sent # sentences) ps
                    = pieces_loop enc max_tokens overlap sentences ?ps'"
        using fits True by (simp add: Let_def)
      have "\<forall>g\<in>set (finished ?ps'). \<forall>s\<in>set (snd g). int (length (enc s)) \<le> max_tokens"
        using Cons.prems by simp
      moreover have "\<forall>s\<in>set (appended ?ps'). int (length (enc s)) \<le> max_tokens"
        using fits by simp
      ultimately show ?thesis unfolding step by (rule Cons.IH)
    next
      case False
      let ?ps' = "\<lparr>finished = finished ps, seed = seed ps,
                   appended = appended ps @ [sent], tokens = tokens ps + ?n\<rparr>"
      have step: "pieces_loop enc max_tokens overlap (sent # sentences) ps
                    = pieces_loop enc max_tokens overlap sentences ?ps'"
        using fits False by (simp add: Let_def)
      have "\<forall>g\<in>set (finished ?ps'). \<forall>s\<in>set (snd g). int (length (enc s)) \<le> max_tokens"
        using Cons.prems by simp
      moreover have "\<forall>s\<in>set (appended ?ps'). int (length (enc s)) \<le> max_tokens"
        using fits Cons.prems(2) by simp
      ultimately show ?thesis unfolding step by (rule Cons.IH)
    qed
  qed
qed

lemma chunk_pieces_fits:
  "\<forall>g\<in>set (chunk_pieces enc max_tokens overlap sentences).
     \<forall>s\<in>set (snd g). int (length (enc s)) \<le> max_tokens"
proof -
  let ?ps0 = "\<lparr>finished = [], seed = None, appended = [], tokens = 0\<rparr>"
  have "(\<forall>g\<in>set (finished (pieces_loop enc max_tokens overlap sentences ?ps0)).
            \<forall>s\<in>set (snd g). int (length (enc s)) \<le> max_tokens) \<and>
         (\<forall>s\<in>set (appended (pieces_loop enc max_tokens overlap sentences ?ps0)).
            int (length (enc s)) \<le> max_tokens)"
    by (rule pieces_loop_fits) simp_all
  then show ?thesis
    by (auto simp: chunk_pieces_def Let_def)
qed

lemma pieces_loop_filter:
  "pieces_loop enc max_tokens overlap
     (filter (\<lambda>s. int (length (enc s)) \<le> max_tokens) sentences) ps
   = pieces_loop enc max_tokens overlap sentences ps"
proof (induction sentences arbitrary: ps)
  case Nil
  then show ?case by simp
next
  case (Cons sent sentences)
  show ?case
  proof (cases "int (length (enc sent)) \<le> max_tokens")
    case True
    then show ?thesis using Cons.IH by (simp add: Let_def)
  next
    case False
    then show ?thesis using Cons.IH by (simp add: Let_def)
  qed
qed

lemma chunk_pieces_filter:
  "chunk_pieces enc max_tokens overlap
     (filter (\<lambda>s. int (length (enc s)) \<le> max_tokens) sentences)
   = chunk_pieces enc max_tokens overlap sentences"
  by (simp add: chunk_pieces_def pieces_loop_filter)


lemma seeds_chain_last_irrelevant:
  "seeds_chain ov sd (gs @ [(s, x)]) \<Longrightarrow> seeds_chain ov sd (gs @ [(s, y)])"
  by (induction gs arbitrary: sd) auto

lemma seeds_chain_extend:
  "seeds_chain ov sd (gs @ [g])
     \<Longrightarrow> seeds_chain ov sd (gs @ [g, (Some (overlap_text ov (render_piece g)), x)])"
  by (induction gs arbitrary: sd) auto

lemma seeds_chain_prefix: "seeds_chain ov sd (gs @ hs) \<Longrightarrow> seeds_chain ov sd gs"
  by (induction gs arbitrary: sd) auto

lemma pieces_loop_chain:
  assumes "seeds_chain overlap None (finished ps @ [(seed ps, appended ps)])"
  shows "seeds_chain overlap None
           (finished (pieces_loop enc max_tokens overlap sentences ps)
              @ [(seed (pieces_loop enc max_tokens overlap sentences ps),
                  appended (pieces_loop enc max_tokens overlap sentences ps))])"
  using assms
proof (induction sentences arbitrary: ps)
  case Nil
  then show ?case by simp
next
  case (Cons sent sentences)
  let ?n = "int (length (enc sent))"
  show ?case
  proof (cases "?n > max_tokens")
    case True
    then show ?thesis using Cons.IH[of ps] Cons.prems by simp
  next
    case fits: False
    show ?thesis
    proof (cases "tokens ps + ?n > max_tokens")
      case True
      let ?txt = "overlap_text overlap (render_piece (seed ps, appended ps))"
      let ?ps' = "\<lparr>finished = finished ps @ [(seed ps, appended ps)], seed = Some ?txt,
                   appended = [sent], tokens = int (length (enc ?txt)) + ?n\<rparr>"
      have step: "pieces_loop enc max_tokens overlap (sent # sentences) ps
                    = pieces_loop enc max_tokens overlap sentences ?ps'"
        using fits True by (simp add: Let_def)
      have "seeds_chain overlap None (finished ps @ [(seed ps, appended ps), (Some ?txt, [sent])])"
        using Cons.prems by (rule seeds_chain_extend)
      then have "seeds_chain overlap None (finished ?ps' @ [(seed ?ps', appended ?ps')])"
        by simp
      then show ?thesis unfolding step by (rule Cons.IH)
    next
      case False
      let ?ps' = "\<lparr>finished = finished ps, seed = seed ps,
                   appended = appended ps @ [sent], tokens = tokens ps + ?n\<rparr>"
      have step: "pieces_loop enc max_tokens overlap (sent # sentences) ps
                    = pieces_loop enc max_tokens overlap sentences ?ps'"
        using fits False by (simp add: Let_def)
      have "seeds_chain overlap None (finished ps @ [(seed ps, appended ps @ [sent])])"
        using Cons.prems by (rule seeds_chain_last_irrelevant)
      then have "seeds_chain overlap None (finished ?ps' @ [(seed ?ps', appended ?ps')])"
        by simp
      then show ?thesis unfolding step by (rule Cons.IH)
    qed
  qed
qed

lemma chunk_pieces_chain: "seeds_chain overlap None (chunk_pieces enc max_tokens overlap sentences)"
proof -
  let ?ps0 = "\<lparr>finished = [], seed = None, appended = [], tokens = 0\<rparr>"
  let ?st = "pieces_loop enc max_tokens overlap sentences ?ps0"
  have "seeds_chain overlap None (finished ?ps0 @ [(seed ?ps0, appended ?ps0)])"
    by simp
  then have ch: "seeds_chain overlap None (finished ?st @ [(seed ?st, appended ?st)])"
    by (rule pieces_loop_chain)
  then have "seeds_chain overlap None (finished ?st)"
    by (rule seeds_chain_prefix)
  with ch show ?thesis
    by (simp add: chunk_pieces_def Let_def)
qed

lemma py_split_nl_no_newline: "NL \<notin> set s \<Longrightarrow> py_split_nl s = [s]"
  by (induction s) auto

lemma py_split_nl_line: "NL \<notin> set s \<Longrightarrow> py_split_nl (s @ NL # t) = s # py_split_nl t"
  by (induction s) auto

text \<open>
  Claim C4: in a run of \<open>chunk_text\<close> with \<open>max_tokens = 256\<close>, the sentences accumulated
  into an emitted chunk have at most 256 tokens together, each sentence encoded on its own;
  the overlap seed the chunk starts with is not counted among them. The emitted chunks are
  the joins of the pieces (deduplicated), the seed of every piece but the first is the
  overlap text of the chunk before it, and the sentences of every piece have at most 256
  tokens.
\<close>

theorem chunk_text_sentence_content_bounded:
  assumes "get_encoding env tokenizer_name = Inr enc"
  shows "let gs = chunk_pieces enc 256 overlap (sent_tokenize env text)
         in chunk_text env text tokenizer_name 256 overlap
              = Inr (deduplicate_chunks (map render_piece gs)) \<and>
            set (deduplicate_chunks (map render_piece gs)) \<subseteq> render_piece ` set gs \<and>
            seeds_chain overlap None gs \<and>
            (\<forall>g\<in>set gs. sentence_tokens enc (snd g) \<le> 256)"
proof -
  let ?gs = "chunk_pieces enc 256 overlap (sent_tokenize env text)"
  have "chunk_text env text tokenizer_name 256 overlap
          = Inr (deduplicate_chunks (map render_piece ?gs))"
    using assms by (rule chunk_text_pieces)
  moreover have "set (deduplicate_chunks (map render_piece ?gs)) \<subseteq> render_piece ` set ?gs"
    using set_deduplicate_chunks[of "map render_piece ?gs"] by simp
  moreover have "seeds_chain overlap None ?gs"
    by (rule chunk_pieces_chain)
  moreover have "\<forall>g\<in>set ?gs. sentence_tokens enc (snd g) \<le> 256"
    by (rule chunk_pieces_bound) simp
  ultimately show ?thesis by (simp add: Let_def)
qed

theorem chunk_text_sentence_content_bounded_witness:
  "get_encoding line_env ''cl100k_base'' = Inr char_tokens \<and>
   sent_tokenize line_env (replicate 200 (CHR ''a'') @ NL # replicate 250 (CHR ''b''))
     = [replicate 200 (CHR ''a''), replicate 250 (CHR ''b'')] \<and>
   chunk_pieces char_tokens 256 40 [replicate 200 (CHR ''a''), replicate 250 (CHR ''b'')]
     = [(None, [replicate 200 (CHR ''a'')]),
        (Some (replicate 40 (CHR ''a'')), [replicate 250 (CHR ''b'')])] \<and>
   chunk_text line_env (replicate 200 (CHR ''a'') @ NL # replicate 250 (CHR ''b''))
       ''cl100k_base'' 256 40
     = Inr (deduplicate_chunks
              [replicate 200 (CHR ''a''),
               replicate 40 (CHR ''a'') @ '' '' @ replicate 250 (CHR ''b'')]) \<and>
   list_all (\<lambda>g. sentence_tokens char_tokens (snd g) \<le> 256)
     (chunk_pieces char_tokens 256 40 [replicate 200 (CHR ''a''), replicate 250 (CHR ''b'')])"
proof -
  let ?text = "replicate 200 (CHR ''a'') @ NL # replicate 250 (CHR ''b'')"
  have enc: "get_encoding line_env ''cl100k_base'' = Inr char_tokens"
    by (simp add: line_env_def)
  have sents: "sent_tokenize line_env ?text
                 = [replicate 200 (CHR ''a''), replicate 250 (CHR ''b'')]"
    by (simp add: line_env_def py_split_nl_line py_split_nl_no_newline)
  have pieces: "chunk_pieces char_tokens 256 40
                  [replicate 200 (CHR ''a''), replicate 250 (CHR ''b'')]
     = [(None, [replicate 200 (CHR ''a'')]),
        (Some (replicate 40 (CHR ''a'')), [replicate 250 (CHR ''b'')])]"
    by (simp add: chunk_pieces_def Let_def render_piece_def piece_parts_def overlap_text_def
          py_slice_from_def char_tokens_def)
  from chunk_text_sentence_content_bounded[OF enc, of 40 ?text]
  show ?thesis
    unfolding Let_def sents using enc pieces
    by (simp add: list_all_iff render_piece_def piece_parts_def)
qed

text \<open>
  Claim C5: a sentence with more tokens than \<open>max_tokens\<close> is left out of every emitted
  chunk. Every sentence accumulated into a piece has at most \<open>max_tokens\<close> tokens, and the
  chunks are the ones the text gives with its longer sentences removed beforehand.
\<close>

theorem chunk_text_drops_oversized_sentences:
  assumes "get_encoding env tokenizer_name = Inr enc"
  shows "let fits = (\<lambda>s. int (length (enc s)) \<le> max_tokens);
             gs = chunk_pieces enc max_tokens overlap (sent_tokenize env text)
         in chunk_text env text tokenizer_name max_tokens overlap
              = Inr (deduplicate_chunks (map render_piece gs)) \<and>
            (\<forall>g\<in>set gs. \<forall>s\<in>set (snd g). fits s) \<and>
            chunk_text env text tokenizer_name max_tokens overlap
              = chunk_text (env\<lparr>sent_tokenize := \<lambda>t. filter fits (sent_tokenize env t)\<rparr>)
                  text tokenizer_name max_tokens overlap"
proof -
  let ?fits = "\<lambda>s. int (length (enc s)) \<le> max_tokens"
  let ?gs = "chunk_pieces enc max_tokens overlap (sent_tokenize env text)"
  let ?env' = "env\<lparr>sent_tokenize := \<lambda>t. filter ?fits (sent_tokenize env t)\<rparr>"
  have a: "chunk_text env text tokenizer_name max_tokens overlap
          = Inr (deduplicate_chunks (map render_piece ?gs))"
    using assms by (rule chunk_text_pieces)
  have "get_encoding ?env' tokenizer_name = Inr enc"
    using assms by simp
  then have "chunk_text ?env' text tokenizer_name max_tokens overlap
          = Inr (deduplicate_chunks (map render_piece
               (chunk_pieces enc max_tokens overlap (sent_tokenize ?env' text))))"
    by (rule chunk_text_pieces)
  then have b: "chunk_text ?env' text tokenizer_name max_tokens overlap
                  = chunk_text env text tokenizer_name max_tokens overlap"
    unfolding a by (simp add: chunk_pieces_filter)
  have c: "\<forall>g\<in>set ?gs. \<forall>s\<in>set (snd g). ?fits s"
    by (rule chunk_pieces_fits)
  show ?thesis using a b c by (simp add: Let_def)
qed

theorem chunk_text_drops_oversized_sentences_witness:
  "get_encoding line_env ''cl100k_base'' = Inr char_tokens \<and>
   sent_tokenize line_env (''abc'' @ NL # replicate 300 (CHR ''x'') @ NL # ''de'')
     = [''abc'', replicate 300 (CHR ''x''), ''de''] \<and>
   chunk_pieces char_tokens 256 40 [''abc'', replicate 300 (CHR ''x''), ''de'']
     = [(None, [''abc'', ''de''])] \<and>
   chunk_text line_env (''abc'' @ NL # replicate 300 (CHR ''x'') @ NL # ''de'') ''cl100k_base'' 256 40
     = Inr [''abc de'']"
proof -
  let ?text = "''abc'' @ NL # replicate 300 (CHR ''x'') @ NL # ''de''"
  have enc: "get_encoding line_env ''cl100k_base'' = Inr char_tokens"
    by (simp add: line_env_def)
  have "py_split_nl ?text = [''abc'', replicate 300 (CHR ''x''), ''de'']"
    using py_split_nl_line[of "''abc''" "replicate 300 (CHR ''x'') @ NL # ''de''"]
          py_split_nl_line[of "replicate 300 (CHR ''x'')" "''de''"]
    by simp
  then have sents: "sent_tokenize line_env ?text = [''abc'', replicate 300 (CHR ''x''), ''de'']"
    by (simp add: line_env_def)
  have pieces: "chunk_pieces char_tokens 256 40 [''abc'', replicate 300 (CHR ''x''), ''de'']
                  = [(None, [''abc'', ''de''])]"
    by (simp add: chunk_pieces_def Let_def piece_parts_def char_tokens_def)
  from chunk_text_drops_oversized_sentences[OF enc, of 256 40 ?text]
  show ?thesis
    unfolding Let_def sents using enc pieces
    by (simp add: render_piece_def piece_parts_def deduplicate_chunks_def)
qed

text \<open>
  Claim C10: the tokens of a chunk together with its overlap seed are not bounded by
  \<open>max_tokens\<close>. Where a text has two sentences that each fit but do not fit together, the
  second chunk is the overlap text of the first sentence followed by the second sentence,
  appended with no further check; where that seed and the second sentence have more than
  \<open>max_tokens\<close> tokens together, the chunk is emitted all the same.
\<close>

theorem chunk_text_reseeded_chunk_exceeds_bound:
  assumes "get_encoding env tokenizer_name = Inr enc"
      and "sent_tokenize env text = [s1, s2]"
      and "int (length (enc s1)) \<le> max_tokens"
      and "int (length (enc s2)) \<le> max_tokens"
      and "int (length (enc s1)) + int (length (enc s2)) > max_tokens"
      and "int (length (enc (overlap_text overlap s1))) + int (length (enc s2)) > max_tokens"
  shows "chunk_pieces enc max_tokens overlap (sent_tokenize env text)
           = [(None, [s1]), (Some (overlap_text overlap s1), [s2])] \<and>
         chunk_text env text tokenizer_name max_tokens overlap
           = Inr (deduplicate_chunks [s1, overlap_text overlap s1 @ '' '' @ s2]) \<and>
         int (length (enc (overlap_text overlap s1))) + sentence_tokens enc [s2] > max_tokens"
proof -
  have p: "chunk_pieces enc max_tokens overlap (sent_tokenize env text)
           = [(None, [s1]), (Some (overlap_text overlap s1), [s2])]"
    using assms(3-6) unfolding assms(2)
    by (simp add: chunk_pieces_def Let_def render_piece_def piece_parts_def)
  have "chunk_text env text tokenizer_name max_tokens overlap
          = Inr (deduplicate_chunks (map render_piece
               (chunk_pieces enc max_tokens overlap (sent_tokenize env text))))"
    using assms(1) by (rule chunk_text_pieces)
  then have "chunk_text env text tokenizer_name max_tokens overlap
           = Inr (deduplicate_chunks [s1, overlap_text overlap s1 @ '' '' @ s2])"
    unfolding p by (simp add: render_piece_def piece_parts_def)
  with p assms(6) show ?thesis by simp
qed

lemma md5_aaaa: "md5_hexdigest ''aaaa'' = ''74b87337454200d4d33f80c4663dc5e5''"
  by code_simp

lemma md5_aaaa_bbbb: "md5_hexdigest ''aaaa bbbb'' = ''9c4d5b85dca9df74082b88e6e5fbf2c3''"
  by code_simp

theorem chunk_text_reseeded_chunk_exceeds_bound_witness:
  "get_encoding line_env ''cl100k_base'' = Inr char_tokens \<and>
   sent_tokenize line_env (''aaaa'' @ NL # ''bbbb'') = [''aaaa'', ''bbbb''] \<and>
   overlap_text 40 ''aaaa'' = ''aaaa'' \<and>
   chunk_pieces char_tokens 5 40 [''aaaa'', ''bbbb'']
     = [(None, [''aaaa'']), (Some ''aaaa'', [''bbbb''])] \<and>
   chunk_text line_env (''aaaa'' @ NL # ''bbbb'') ''cl100k_base'' 5 40
     = Inr [''aaaa'', ''aaaa bbbb''] \<and>
   int (length (char_tokens ''aaaa'')) + sentence_tokens char_tokens [''bbbb''] = 8"
proof -
  have enc: "get_encoding line_env ''cl100k_base'' = Inr char_tokens"
    by (simp add: line_env_def)
  have sents: "sent_tokenize line_env (''aaaa'' @ NL # ''bbbb'') = [''aaaa'', ''bbbb'']"
    by (simp add: line_env_def)
  have ov: "overlap_text 40 ''aaaa'' = ''aaaa''"
    by (simp add: overlap_text_def)
  have dedup: "deduplicate_chunks [''aaaa'', ''aaaa bbbb''] = [''aaaa'', ''aaaa bbbb'']"
    by (simp add: deduplicate_chunks_def md5_aaaa md5_aaaa_bbbb)
  from chunk_text_reseeded_chunk_exceeds_bound
         [of line_env "''cl100k_base''" char_tokens "''aaaa'' @ NL # ''bbbb''"
             "''aaaa''" "''bbbb''" 5 40]
  show ?thesis
    using enc sents ov dedup by (simp add: char_tokens_def)
qed

section \<open>Embedding and storing\<close>










section \<open>The LLM client and the student generator\<close>




text \<open>
  Where every default of the schema is absent or empty, the instance returned after a
  failure has no populated field; a schema with another default gives an instance that
  holds it. With the class \<open>Scored\<close>, whose field \<open>label\<close> has the default \<open>n/a\<close>:
\<close>

lemma generate_structured_populated_default:
  "generate_structured demo_llm_env
      \<lparr>self_provider = ''openai'', self_model_name = ''gpt'', self_client = failing_client\<rparr>
      ''What is efficiency?'' Scored_model
     = (Inr (PyInstance ''Scored'' [(''label'', PyStr ''n/a'')]),
        [StructuredGenerationError (LibraryError ''connection refused'')]) \<and>
   \<not> all_fields_empty (PyInstance ''Scored'' [(''label'', PyStr ''n/a'')])"
  by (simp add: generate_structured_def structured_body_def failing_client_def
        demo_llm_env_def Scored_model_def pydantic_model_def pydantic_model_construct_def
        empty_value_def)




text \<open>
  Claim C8: constructing the client with a provider name that, in lower case, is none of
  \<open>gemini\<close>, \<open>openai\<close>, \<open>anthropic\<close> and \<open>groq\<close> fails with \<open>ValueError\<close> (the
  specification's InvalidConfiguration). It does so in every process environment, whatever
  its SDK constructors and the handles they give would do: none of them is reached. The
  student generator, which builds the client, fails with it.
\<close>

theorem LLMClient_init_unknown_provider:
  assumes "py_lower provider \<noteq> ''gemini''" and "py_lower provider \<noteq> ''openai''"
      and "py_lower provider \<noteq> ''anthropic''" and "py_lower provider \<noteq> ''groq''"
  shows "LLMClient_init env provider model_name'
           = Inl (ValueError (''Unknown provider: '' @ py_lower provider)) \<and>
         StudentGenerator_init env provider model_name'
           = Inl (ValueError (''Unknown provider: '' @ py_lower provider))"
  using assms
  by (simp add: StudentGenerator_init_def LLMClient_init_def init_client_def Let_def)

theorem LLMClient_init_unknown_provider_witness:
  "py_lower ''Mistral'' = ''mistral'' \<and>
   LLMClient_init demo_llm_env ''Mistral'' ''mistral-large''
     = Inl (ValueError ''Unknown provider: mistral'') \<and>
   StudentGenerator_init demo_llm_env ''Mistral'' ''mistral-large''
     = Inl (ValueError ''Unknown provider: mistral'')"
proof -
  have low: "py_lower ''Mistral'' = ''mistral''"
    by code_simp
  from LLMClient_init_unknown_provider
         [of "''Mistral''" demo_llm_env "''mistral-large''"]
  show ?thesis
    unfolding low by simp
qed

lemma generate_text_total: "\<exists>r. generate_text self prompt system_instruction = Inr r"
  by (simp add: generate_text_def try_except_def split: sum.splits)

text \<open>
  Claim C9: with no schema, \<open>StudentGenerator.generate\<close> returns the string
  \<open>Error: The LLM returned no response.\<close> when the client's \<open>generate_text\<close> gives \<open>None\<close>,
  and the generated text unchanged otherwise; \<open>generate_text\<close> always gives one of the two.
\<close>

theorem generate_without_schema:
  "(\<exists>response. generate_text (llm self) (student_prompt query context)
                  (Some student_system_instr) = Inr response) \<and>
   (generate_text (llm self) (student_prompt query context) (Some student_system_instr)
      = Inr None \<longrightarrow>
    generate env self query context None
      = (Inr (Text ''Error: The LLM returned no response.''), [])) \<and>
   (\<forall>r. generate_text (llm self) (student_prompt query context) (Some student_system_instr)
          = Inr (Some r) \<longrightarrow>
        generate env self query context None = (Inr (Text r), []))"
  using generate_text_total[of "llm self" "student_prompt query context"
          "Some student_system_instr"]
  by (auto simp: generate_def student_prompt_def Let_def)

theorem generate_without_schema_witness:
  "generate_text
      \<lparr>self_provider = ''gemini'', self_model_name = ''gemini-pro'', self_client = silent_client\<rparr>
      (student_prompt ''What is efficiency?'' ''No context.'') (Some student_system_instr)
     = Inr None \<and>
   generate demo_llm_env
      \<lparr>llm = \<lparr>self_provider = ''gemini'', self_model_name = ''gemini-pro'',
               self_client = silent_client\<rparr>\<rparr>
      ''What is efficiency?'' ''No context.'' None
     = (Inr (Text ''Error: The LLM returned no response.''), []) \<and>
   generate demo_llm_env
      \<lparr>llm = \<lparr>self_provider = ''openai'', self_model_name = ''gpt'',
               self_client = answering_client\<rparr>\<rparr>
      ''What is efficiency?'' ''No context.'' None
     = (Inr (Text ''42''), []) \<and>
   generate demo_llm_env
      \<lparr>llm = \<lparr>self_provider = ''openai'', self_model_name = ''gpt'',
               self_client = failing_client\<rparr>\<rparr>
      ''What is efficiency?'' ''No context.'' None
     = (Inr (Text ''Error: connection refused''), [])"
  using generate_without_schema
          [of "\<lparr>llm = \<lparr>self_provider = ''gemini'', self_model_name = ''gemini-pro'',
                        self_client = silent_client\<rparr>\<rparr>"
              "''What is efficiency?''" "''No context.''" demo_llm_env]
  by (simp add: generate_def generate_text_def try_except_def first_item_def chat_messages_def
        silent_client_def answering_client_def failing_client_def Let_def)

section \<open>The ingestion run\<close>

lemma ingest_files_append:
  "ingest_files env encode emb tok cs co (xs @ ys) w =
     (case ingest_files env encode emb tok cs co xs w of
        Inl e \<Rightarrow> Inl e
      | Inr w' \<Rightarrow> ingest_files env encode emb tok cs co ys w')"
  by (induction xs arbitrary: w) (auto split: sum.splits)

lemma ingest_file_html_error:
  assumes "py_lower (path_suffix file_path) = ''.html''"
      and "extract_text_from_html env file_path = Inl e"
  shows "ingest_file env encode emb tok cs co (file_path, relative_path) w = Inl e"
  using assms by (simp add: ingest_file_def Let_def)

lemma extract_text_from_html_raises:
  "extract_text_from_html env path = Inl e \<longleftrightarrow>
     path_exists env path \<and>
     (read_text_utf8 env path = Inl e \<or>
      (\<exists>html. read_text_utf8 env path = Inr html \<and> soup_get_text env html = Inl e))"
  by (auto simp: extract_text_from_html_def split: sum.splits)

text \<open>
  Claim C1 says that no failure to open or parse a file leaves \<open>run_ingestion\<close>. For an HTML
  file the code does otherwise: \<open>extract_text_from_html\<close> guards against a missing file
  only, and neither it nor \<open>run_ingestion\<close> catches what reading or parsing raises. When
  the files before it were ingested and the extraction of an \<open>.html\<close> file raises, the run
  ends with that exception, and no file after it is ingested.
\<close>

theorem run_ingestion_html_error_propagates:
  assumes "get_or_create_collection env db_path collection_name = Inr ()"
      and "load_embedding_model env embedding_model_name = Inr encode"
      and "path_exists env data_dir"
      and "rglob_files env data_dir = before @ (file_path, relative_path) # after"
      and "ingest_files env encode embedding_model_name tokenizer_model chunk_size chunk_overlap
             before (print (FoundFiles (length (rglob_files env data_dir))) w) = Inr w'"
      and "py_lower (path_suffix file_path) = ''.html''"
      and "extract_text_from_html env file_path = Inl e"
  shows "run_ingestion env data_dir db_path collection_name embedding_model_name
           tokenizer_model chunk_size chunk_overlap w = Inl e"
proof -
  have "ingest_files env encode embedding_model_name tokenizer_model chunk_size chunk_overlap
          (before @ (file_path, relative_path) # after)
          (print (FoundFiles (length (rglob_files env data_dir))) w) = Inl e"
    unfolding ingest_files_append assms(5)
    by (simp add: ingest_file_html_error[OF assms(6,7)])
  then show ?thesis
    using assms(1-3) unfolding run_ingestion_def assms(4)[symmetric]
    by (simp add: Let_def)
qed

theorem run_ingestion_html_error_propagates_witness:
  "rglob_files broken_html_env ''data'' = [(''data/a.html'', ''a.html''), (''data/b.pdf'', ''b.pdf'')] \<and>
   extract_text_from_html broken_html_env ''data/a.html''
     = Inl (UnicodeDecodeError ''invalid start byte'') \<and>
   run_ingestion broken_html_env ''data'' ''db'' ''docs'' ''all-MiniLM-L6-v2'' ''cl100k_base'' 256 40
       \<lparr>printed = [], encoded = [], added = []\<rparr>
     = Inl (UnicodeDecodeError ''invalid start byte'')"
proof -
  have files: "rglob_files broken_html_env ''data''
                 = [] @ (''data/a.html'', ''a.html'') # [(''data/b.pdf'', ''b.pdf'')]"
    by (simp add: broken_html_env_def)
  have ext: "py_lower (path_suffix ''data/a.html'') = ''.html''"
    by code_simp
  have raised: "extract_text_from_html broken_html_env ''data/a.html''
                  = Inl (UnicodeDecodeError ''invalid start byte'')"
    by (simp add: extract_text_from_html_def broken_html_env_def line_env_def)
  have "run_ingestion broken_html_env ''data'' ''db'' ''docs'' ''all-MiniLM-L6-v2''
          ''cl100k_base'' 256 40 \<lparr>printed = [], encoded = [], added = []\<rparr>
          = Inl (UnicodeDecodeError ''invalid start byte'')"
    by (rule run_ingestion_html_error_propagates[OF _ _ _ files _ ext raised])
       (simp_all add: broken_html_env_def line_env_def)
  with raised show ?thesis
    by (simp add: broken_html_env_def)
qed

text \<open>
  The PDF path, for comparison: \<open>extract_text_from_pdf\<close> catches the exception, prints it
  and gives the empty text, the file gives no chunk and the run goes on to the next file.
\<close>

lemma run_ingestion_pdf_error_swallowed:
  "run_ingestion broken_pdf_env ''data'' ''db'' ''docs'' ''all-MiniLM-L6-v2'' ''cl100k_base'' 256 40
       \<lparr>printed = [], encoded = [], added = []\<rparr>
     = Inr \<lparr>printed = [FoundFiles 2, Processing ''a.pdf'',
                        PdfReadError ''data/a.pdf'' (LibraryError ''cannot open broken document''),
                        Processing ''b.pdf'', SavedChunks 1, IngestionComplete ''docs'' 1],
            encoded = [[''Sentence one. Sentence two.'']],
            added = [\<lparr>ids = [''b.pdf_0''], embeddings = (),
                      documents = [''Sentence one. Sentence two.''],
                      metadatas = [[(''dataset'', ''b.pdf'')]]\<rparr>]\<rparr>"
  by code_simp

end
